theory Spec2Isabelle
  imports Complex_Main
begin

section \<open>JavaScript values\<close>

text \<open>
  The provider replies are parsed JSON, and the code reads them with member access,
  optional chaining and \<open>||\<close>. A value is one of JavaScript's: \<open>undefined\<close>, \<open>null\<close>,
  a boolean, a number (integers suffice for the fields read here), a string, an array or
  an object with its own properties in order.
\<close>

datatype jsval =
    JUndefined
  | JNull
  | JBool bool
  | JNum int
  | JStr string
  | JArr "jsval list"
  | JObj "(string \<times> jsval) list"

text \<open>
  What the code throws: \<open>new Error(msg)\<close>, or a \<open>TypeError\<close> or \<open>SyntaxError\<close> of
  the runtime, with its message. The runtime's messages are in the wording of V8, the
  engine of Electron; where that wording quotes the source expression or the text it
  failed to parse, a short message stands for it.
\<close>

datatype error = Error string | TypeError string | SyntaxError string

text \<open>Truthiness, as \<open>!x\<close> and \<open>x || y\<close> read it.\<close>

fun truthy :: "jsval \<Rightarrow> bool" where
  "truthy JUndefined = False"
| "truthy JNull = False"
| "truthy (JBool b) = b"
| "truthy (JNum n) = (n \<noteq> 0)"
| "truthy (JStr s) = (s \<noteq> [])"
| "truthy (JArr _) = True"
| "truthy (JObj _) = True"

definition js_or :: "jsval \<Rightarrow> jsval \<Rightarrow> jsval" where
  "js_or a b = (if truthy a then a else b)"

text \<open>
  The property names every plain object inherits from \<open>Object.prototype\<close>. A read
  \<open>obj[name]\<close> of one of them on an object literal that has no own property of that
  name gives the inherited value, a function (for \<open>__proto__\<close> the prototype object), not
  \<open>undefined\<close>.
\<close>

definition object_prototype :: "string list" where
  "object_prototype =
     [''constructor'', ''__proto__'', ''hasOwnProperty'', ''isPrototypeOf'', ''propertyIsEnumerable'',
      ''toLocaleString'', ''toString'', ''valueOf'', ''__defineGetter__'', ''__defineSetter__'',
      ''__lookupGetter__'', ''__lookupSetter__'']"

section \<open>Conversation history (ai-services.js, AIServiceManager)\<close>

record turn =
  role :: string
  content :: jsval

record manager =
  currentProvider :: string
  conversationHistory :: "turn list"
  maxHistoryLength :: nat

text \<open>The constructor: provider \<open>openai\<close>, empty history, ten turns kept.\<close>

definition new_manager :: manager where
  "new_manager = \<lparr> currentProvider = ''openai'', conversationHistory = [], maxHistoryLength = 10 \<rparr>"

text \<open>
  \<open>xs.slice(-n)\<close>: a negative start counts from the end, clamped at the front of the
  array. For \<open>n = 0\<close> the argument is \<open>-0\<close>, which is the start index 0: the whole array
  is copied.
\<close>

definition slice_neg :: "nat \<Rightarrow> 'a list \<Rightarrow> 'a list" where
  "slice_neg n xs = (if n = 0 then xs else drop (length xs - n) xs)"

definition addToHistory :: "manager \<Rightarrow> string \<Rightarrow> jsval \<Rightarrow> manager" where
  "addToHistory m r c =
     (let h = conversationHistory m @ [\<lparr> role = r, content = c \<rparr>]
      in if length h > maxHistoryLength m
         then m \<lparr> conversationHistory := slice_neg (maxHistoryLength m) h \<rparr>
         else m \<lparr> conversationHistory := h \<rparr>)"


definition getConversationContext :: "manager \<Rightarrow> turn list" where
  "getConversationContext m = map (\<lambda>msg. \<lparr> role = role msg, content = content msg \<rparr>) (conversationHistory m)"

text \<open>A sequence of appends, one \<open>addToHistory\<close> call per turn, in order.\<close>

fun appendAll :: "manager \<Rightarrow> turn list \<Rightarrow> manager" where
  "appendAll m [] = m"
| "appendAll m (t # ts) = appendAll (addToHistory m (role t) (content t)) ts"

section \<open>Strings\<close>

text \<open>
  Characters are code units below 256. \<open>trim\<close> removes JavaScript's white space and
  line terminators at both ends; in this range they are tab, LF, VT, FF, CR, space and
  the no-break space.
\<close>

definition js_whitespace :: "char \<Rightarrow> bool" where
  "js_whitespace c = (c \<in> set [CHR 0x09, CHR 0x0A, CHR 0x0B, CHR 0x0C, CHR 0x0D, CHR 0x20, CHR 0xA0])"

definition trim :: "string \<Rightarrow> string" where
  "trim s = rev (dropWhile js_whitespace (rev (dropWhile js_whitespace s)))"

definition startsWith :: "string \<Rightarrow> string \<Rightarrow> bool" where
  "startsWith s p = (take (length p) s = p)"

definition digit_char :: "nat \<Rightarrow> char" where
  "digit_char d = char_of (48 + d)"

fun string_of_nat :: "nat \<Rightarrow> string" where
  "string_of_nat n = (if n < 10 then [digit_char n] else string_of_nat (n div 10) @ [digit_char (n mod 10)])"

definition string_of_int :: "int \<Rightarrow> string" where
  "string_of_int i = (if i < 0 then CHR ''-'' # string_of_nat (nat (- i)) else string_of_nat (nat i))"

text \<open>\<open>String(v)\<close>, as a template literal converts the value it interpolates.\<close>

fun js_to_string :: "jsval \<Rightarrow> string"
  and js_join :: "jsval list \<Rightarrow> string" where
  "js_to_string JUndefined = ''undefined''"
| "js_to_string JNull = ''null''"
| "js_to_string (JBool b) = (if b then ''true'' else ''false'')"
| "js_to_string (JNum n) = string_of_int n"
| "js_to_string (JStr s) = s"
| "js_to_string (JArr xs) = js_join xs"
| "js_to_string (JObj _) = ''[object Object]''"
| "js_join [] = []"
| "js_join [x] = (if x = JUndefined \<or> x = JNull then [] else js_to_string x)"
| "js_join (x # y # ys) =
     (if x = JUndefined \<or> x = JNull then [] else js_to_string x) @ '','' @ js_join (y # ys)"

section \<open>Reading a parsed reply\<close>

definition nullish :: "jsval \<Rightarrow> bool" where
  "nullish v = (v = JUndefined \<or> v = JNull)"

text \<open>
  \<open>v.k\<close> for the property names the code reads (none of them is inherited from a
  prototype): a \<open>TypeError\<close> on \<open>undefined\<close> and \<open>null\<close>, the own property of an object,
  \<open>undefined\<close> otherwise.
\<close>

fun js_get :: "jsval \<Rightarrow> string \<Rightarrow> error + jsval" where
  "js_get JUndefined k =
     Inl (TypeError (''Cannot read properties of undefined (reading '' @ [CHR 0x27] @ k @ [CHR 0x27] @ '')''))"
| "js_get JNull k =
     Inl (TypeError (''Cannot read properties of null (reading '' @ [CHR 0x27] @ k @ [CHR 0x27] @ '')''))"
| "js_get (JObj ps) k = Inr (case map_of ps k of Some v \<Rightarrow> v | None \<Rightarrow> JUndefined)"
| "js_get _ k = Inr JUndefined"

text \<open>\<open>v[0]\<close>: the first element of an array, the first character of a string, the property \<open>0\<close> of an object.\<close>

fun js_index0 :: "jsval \<Rightarrow> error + jsval" where
  "js_index0 JUndefined = Inl (TypeError ''Cannot read properties of undefined (reading '0')'')"
| "js_index0 JNull = Inl (TypeError ''Cannot read properties of null (reading '0')'')"
| "js_index0 (JArr xs) = Inr (case xs of [] \<Rightarrow> JUndefined | x # _ \<Rightarrow> x)"
| "js_index0 (JStr s) = Inr (case s of [] \<Rightarrow> JUndefined | c # _ \<Rightarrow> JStr [c])"
| "js_index0 (JObj ps) = Inr (case map_of ps ''0'' of Some v \<Rightarrow> v | None \<Rightarrow> JUndefined)"
| "js_index0 _ = Inr JUndefined"

definition bindE :: "error + 'a \<Rightarrow> ('a \<Rightarrow> error + 'b) \<Rightarrow> error + 'b" where
  "bindE r f = (case r of Inl e \<Rightarrow> Inl e | Inr v \<Rightarrow> f v)"

text \<open>
  \<open>data.choices[0]?.message?.content\<close>: \<open>data.choices\<close> and \<open>[0]\<close> are plain accesses and
  throw on \<open>undefined\<close>; from there each \<open>?.\<close> ends the chain with \<open>undefined\<close> when its
  left side is nullish.
\<close>

definition choices_content :: "jsval \<Rightarrow> error + jsval" where
  "choices_content data =
     bindE (js_get data ''choices'') (\<lambda>choices.
     bindE (js_index0 choices) (\<lambda>c0.
       if nullish c0 then Inr JUndefined
       else bindE (js_get c0 ''message'') (\<lambda>msg.
         if nullish msg then Inr JUndefined else js_get msg ''content'')))"

text \<open>
  \<open>data.candidates[0]?.content?.parts[0]?.text\<close>: inside the chain \<open>.parts[0]\<close> is again
  a plain index, which throws when \<open>content\<close> has no \<open>parts\<close>.
\<close>

definition candidates_text :: "jsval \<Rightarrow> error + jsval" where
  "candidates_text data =
     bindE (js_get data ''candidates'') (\<lambda>candidates.
     bindE (js_index0 candidates) (\<lambda>c0.
       if nullish c0 then Inr JUndefined
       else bindE (js_get c0 ''content'') (\<lambda>cont.
         if nullish cont then Inr JUndefined
         else bindE (js_get cont ''parts'') (\<lambda>parts.
           bindE (js_index0 parts) (\<lambda>p0.
             if nullish p0 then Inr JUndefined else js_get p0 ''text'')))))"

text \<open>\<open>v?.trim()\<close> at the end of such a chain: only a string has the method.\<close>

definition opt_trim :: "jsval \<Rightarrow> error + jsval" where
  "opt_trim v =
     (if nullish v then Inr JUndefined
      else case v of JStr s \<Rightarrow> Inr (JStr (trim s))
                   | _ \<Rightarrow> Inl (TypeError ''trim is not a function''))"

section \<open>Provider configuration (config.js) and the network\<close>

record provider_config =
  apiKey :: string
  endpoint :: string
  model :: string
  maxTokens :: int
  temperature :: real

record ai_config =
  openai :: provider_config
  mistral :: provider_config
  gemini :: provider_config

definition AI_CONFIG :: ai_config where
  "AI_CONFIG = \<lparr>
     openai = \<lparr> apiKey = [], endpoint = ''https://api.openai.com/v1/chat/completions'',
                model = ''gpt-3.5-turbo'', maxTokens = 1000, temperature = 0.7 \<rparr>,
     mistral = \<lparr> apiKey = [], endpoint = ''https://api.mistral.ai/v1/chat/completions'',
                model = ''mistral-small-latest'', maxTokens = 1000, temperature = 0.7 \<rparr>,
     gemini = \<lparr> apiKey = [],
                endpoint = ''https://generativelanguage.googleapis.com/v1beta/models/gemini-pro:generateContent'',
                model = ''gemini-2.0-flash'', maxTokens = 1000, temperature = 0.7 \<rparr> \<rparr>"

text \<open>
  The own entries of \<open>AI_CONFIG\<close>: \<open>config_of\<close> gives the entry of one of the three
  providers and \<open>None\<close> for a name \<open>AI_CONFIG\<close> has no own entry for. The manager's
  provider is one of the three: the constructor sets \<open>openai\<close> and \<open>setProvider\<close> accepts
  nothing else.
\<close>

definition config_of :: "ai_config \<Rightarrow> string \<Rightarrow> provider_config option" where
  "config_of cfg name =
     (if name = ''openai'' then Some (openai cfg)
      else if name = ''mistral'' then Some (mistral cfg)
      else if name = ''gemini'' then Some (gemini cfg)
      else None)"

text \<open>
  The JSON bodies the code posts. \<open>chat_body\<close> is the OpenAI and Mistral envelope,
  \<open>gemini_body\<close> the Gemini one (\<open>contents\<close> of role and \<open>parts[0].text\<close>, and the
  \<open>generationConfig\<close>).
\<close>

record chat_body =
  cb_model :: string
  cb_messages :: "turn list"
  cb_max_tokens :: int
  cb_temperature :: real
  cb_stream :: bool

record gemini_content =
  gc_role :: string
  gc_text :: jsval

record gemini_body =
  gb_contents :: "gemini_content list"
  gb_maxOutputTokens :: int
  gb_temperature :: real

datatype body = ChatBody chat_body | GeminiBody gemini_body

record request =
  url :: string
  authorization :: "string option"
  body :: body

text \<open>
  What \<open>fetch\<close> gives back: a rejection, or a response with \<open>ok\<close>, \<open>status\<close>,
  \<open>statusText\<close> and a body that \<open>response.json()\<close> parses (\<open>None\<close> when it is not JSON,
  and \<open>json()\<close> rejects). The network is a function from the request to that outcome.
\<close>

datatype fetch_result =
    Rejected error
  | Response bool nat string "jsval option"

type_synonym network = "request \<Rightarrow> fetch_result"

definition req_max_tokens :: "request \<Rightarrow> int" where
  "req_max_tokens r = (case body r of ChatBody b \<Rightarrow> cb_max_tokens b | GeminiBody b \<Rightarrow> gb_maxOutputTokens b)"

definition req_temperature :: "request \<Rightarrow> real" where
  "req_temperature r = (case body r of ChatBody b \<Rightarrow> cb_temperature b | GeminiBody b \<Rightarrow> gb_temperature b)"

section \<open>Provider calls (ai-services.js)\<close>

definition setProvider :: "manager \<Rightarrow> string \<Rightarrow> manager \<times> bool" where
  "setProvider m provider =
     (if provider \<in> set [''openai'', ''mistral'', ''gemini'']
      then (m \<lparr> currentProvider := provider \<rparr>, True)
      else (m, False))"

definition getCurrentProvider :: "ai_config \<Rightarrow> manager \<Rightarrow> string \<times> provider_config option" where
  "getCurrentProvider cfg m = (currentProvider m, config_of cfg (currentProvider m))"

definition system_instruction :: string where
  "system_instruction = ''You are a helpful AI assistant. Provide clear, concise, and helpful responses.''"

text \<open>
  The error of a response that is not \<open>ok\<close>: \<open>response.json()\<close> with \<open>{}\<close> in place of
  a body that does not parse, then the message from the status and
  \<open>errorData.error?.message || response.statusText\<close>.
\<close>

definition api_error :: "string \<Rightarrow> nat \<Rightarrow> string \<Rightarrow> jsval option \<Rightarrow> error" where
  "api_error label status statusText jb =
     (let errorData = (case jb of None \<Rightarrow> JObj [] | Some d \<Rightarrow> d)
      in case bindE (js_get errorData ''error'')
                (\<lambda>e. if nullish e then Inr JUndefined else js_get e ''message'') of
           Inl err \<Rightarrow> err
         | Inr msg \<Rightarrow> Error (label @ '' API error: '' @ string_of_nat status @ '' - ''
                          @ js_to_string (js_or msg (JStr statusText))))"

text \<open>\<open>await response.json()\<close> of an \<open>ok\<close> response.\<close>

definition response_json :: "jsval option \<Rightarrow> error + jsval" where
  "response_json jb = (case jb of None \<Rightarrow> Inl (SyntaxError ''Unexpected token'') | Some d \<Rightarrow> Inr d)"

text \<open>
  \<open>callOpenAI\<close> and \<open>callMistral\<close> are the same text up to the provider's name and its
  entry of \<open>AI_CONFIG\<close>; \<open>call_chat_completions\<close> is that text. Each call returns the
  requests it has sent with its result.
\<close>

definition chat_request :: "provider_config \<Rightarrow> turn list \<Rightarrow> request" where
  "chat_request config messages =
     \<lparr> url = endpoint config,
       authorization = Some (''Bearer '' @ apiKey config),
       body = ChatBody \<lparr> cb_model = model config, cb_messages = messages,
                         cb_max_tokens = maxTokens config, cb_temperature = temperature config,
                         cb_stream = False \<rparr> \<rparr>"

definition call_chat_completions ::
  "string \<Rightarrow> provider_config \<Rightarrow> network \<Rightarrow> manager \<Rightarrow> request list \<times> (error + jsval)" where
  "call_chat_completions label config net m =
     (if apiKey config = [] then ([], Inl (Error (label @ '' API key not configured'')))
      else
        let messages = \<lparr> role = ''system'', content = JStr system_instruction \<rparr> # getConversationContext m;
            req = chat_request config messages
        in case net req of
             Rejected e \<Rightarrow> ([req], Inl e)
           | Response ok status statusText jb \<Rightarrow>
               if \<not> ok then ([req], Inl (api_error label status statusText jb))
               else ([req],
                     bindE (response_json jb) (\<lambda>data.
                     bindE (choices_content data) (\<lambda>c.
                       Inr (js_or c (JStr (''No response from '' @ label)))))))"

definition callOpenAI :: "ai_config \<Rightarrow> network \<Rightarrow> manager \<Rightarrow> string \<Rightarrow> request list \<times> (error + jsval)" where
  "callOpenAI cfg net m userMessage = call_chat_completions ''OpenAI'' (openai cfg) net m"

definition callMistral :: "ai_config \<Rightarrow> network \<Rightarrow> manager \<Rightarrow> string \<Rightarrow> request list \<times> (error + jsval)" where
  "callMistral cfg net m userMessage = call_chat_completions ''Mistral'' (mistral cfg) net m"

definition gemini_request :: "provider_config \<Rightarrow> gemini_content list \<Rightarrow> int \<Rightarrow> real \<Rightarrow> request" where
  "gemini_request config contents mt temp =
     \<lparr> url = endpoint config @ ''?key='' @ apiKey config,
       authorization = None,
       body = GeminiBody \<lparr> gb_contents = contents, gb_maxOutputTokens = mt, gb_temperature = temp \<rparr> \<rparr>"

definition callGemini :: "ai_config \<Rightarrow> network \<Rightarrow> manager \<Rightarrow> string \<Rightarrow> request list \<times> (error + jsval)" where
  "callGemini cfg net m userMessage =
     (let config = gemini cfg in
      if apiKey config = [] then ([], Inl (Error ''Gemini API key not configured''))
      else
        let contents = \<lparr> gc_role = ''user'', gc_text = JStr system_instruction \<rparr>
              # map (\<lambda>msg. \<lparr> gc_role = (if role msg = ''user'' then ''user'' else ''model''),
                              gc_text = content msg \<rparr>) (getConversationContext m);
            req = gemini_request config contents (maxTokens config) (temperature config)
        in case net req of
             Rejected e \<Rightarrow> ([req], Inl e)
           | Response ok status statusText jb \<Rightarrow>
               if \<not> ok then ([req], Inl (api_error ''Gemini'' status statusText jb))
               else ([req],
                     bindE (response_json jb) (\<lambda>data.
                     bindE (candidates_text data) (\<lambda>c.
                       Inr (js_or c (JStr ''No response from Gemini''))))))"

text \<open>The \<open>switch\<close> of \<open>getAIResponse\<close> on the current provider.\<close>

definition dispatch :: "ai_config \<Rightarrow> network \<Rightarrow> manager \<Rightarrow> string \<Rightarrow> request list \<times> (error + jsval)" where
  "dispatch cfg net m userMessage =
     (if currentProvider m = ''openai'' then callOpenAI cfg net m userMessage
      else if currentProvider m = ''mistral'' then callMistral cfg net m userMessage
      else if currentProvider m = ''gemini'' then callGemini cfg net m userMessage
      else ([], Inl (Error ''Unknown AI provider'')))"

text \<open>
  \<open>getAIResponse\<close>: the user turn goes into the history first; the assistant turn only
  after the provider call has returned; what the call throws is thrown again as it is.
  The result is the manager afterwards, the requests sent and the value or the error.
\<close>

definition getAIResponse ::
  "ai_config \<Rightarrow> network \<Rightarrow> manager \<Rightarrow> string \<Rightarrow> manager \<times> request list \<times> (error + jsval)" where
  "getAIResponse cfg net m userMessage =
     (let m1 = addToHistory m ''user'' (JStr userMessage);
          (reqs, r) = dispatch cfg net m1 userMessage
      in case r of
           Inr response \<Rightarrow> (addToHistory m1 ''assistant'' response, reqs, Inr response)
         | Inl e \<Rightarrow> (m1, reqs, Inl e))"

datatype test_result =
    TestSuccess string jsval
  | TestFailure string string

definition error_message :: "error \<Rightarrow> string" where
  "error_message e = (case e of Error s \<Rightarrow> s | TypeError s \<Rightarrow> s | SyntaxError s \<Rightarrow> s)"

definition testConnection ::
  "ai_config \<Rightarrow> network \<Rightarrow> manager \<Rightarrow> string option \<Rightarrow> manager \<times> request list \<times> test_result" where
  "testConnection cfg net m provider =
     (let testProvider = (case provider of None \<Rightarrow> currentProvider m
                          | Some p \<Rightarrow> if p = [] then currentProvider m else p);
          testMessage = ''Hello, this is a test message.'';
          m1 = fst (setProvider m testProvider);
          (m2, reqs, r) = getAIResponse cfg net m1 testMessage
      in case r of
           Inr response \<Rightarrow> (m2, reqs, TestSuccess testProvider response)
         | Inl e \<Rightarrow> (m2, reqs, TestFailure testProvider (error_message e)))"

subsection \<open>Translation\<close>

definition translation_prompt :: "string \<Rightarrow> string \<Rightarrow> string" where
  "translation_prompt sourceLang targetLang =
     ''You are a translation engine. Translate the user text into '' @ targetLang
     @ ''. If a source language is provided ('' @ sourceLang
     @ ''), respect it; otherwise auto-detect. Return only the translated text with no extra commentary.''"

definition translate_chat ::
  "string \<Rightarrow> provider_config \<Rightarrow> network \<Rightarrow> string \<Rightarrow> string \<Rightarrow> request list \<times> (error + jsval)" where
  "translate_chat label config net systemPrompt text =
     (if apiKey config = [] then ([], Inl (Error (label @ '' API key not configured'')))
      else
        let req = \<lparr> url = endpoint config,
                    authorization = Some (''Bearer '' @ apiKey config),
                    body = ChatBody \<lparr> cb_model = model config,
                             cb_messages = [\<lparr> role = ''system'', content = JStr systemPrompt \<rparr>,
                                            \<lparr> role = ''user'', content = JStr text \<rparr>],
                             cb_max_tokens = min 1000 (maxTokens config),
                             cb_temperature = 0.2,
                             cb_stream = False \<rparr> \<rparr>
        in case net req of
             Rejected e \<Rightarrow> ([req], Inl e)
           | Response ok status statusText jb \<Rightarrow>
               if \<not> ok then ([req], Inl (api_error label status statusText jb))
               else ([req],
                     bindE (response_json jb) (\<lambda>data.
                     bindE (choices_content data) (\<lambda>c.
                     bindE (opt_trim c) (\<lambda>t. Inr (js_or t (JStr [])))))))"

definition translate_gemini ::
  "provider_config \<Rightarrow> network \<Rightarrow> string \<Rightarrow> string \<Rightarrow> request list \<times> (error + jsval)" where
  "translate_gemini config net systemPrompt text =
     (if apiKey config = [] then ([], Inl (Error ''Gemini API key not configured''))
      else
        let contents = [\<lparr> gc_role = ''user'', gc_text = JStr systemPrompt \<rparr>,
                        \<lparr> gc_role = ''user'', gc_text = JStr text \<rparr>];
            req = gemini_request config contents (min 1000 (maxTokens config)) 0.2
        in case net req of
             Rejected e \<Rightarrow> ([req], Inl e)
           | Response ok status statusText jb \<Rightarrow>
               if \<not> ok then ([req], Inl (api_error ''Gemini'' status statusText jb))
               else ([req],
                     bindE (response_json jb) (\<lambda>data.
                     bindE (candidates_text data) (\<lambda>c.
                     bindE (opt_trim c) (\<lambda>t. Inr (js_or t (JStr [])))))))"

definition translateText ::
  "ai_config \<Rightarrow> network \<Rightarrow> manager \<Rightarrow> string \<Rightarrow> string \<Rightarrow> string \<Rightarrow> request list \<times> (error + jsval)" where
  "translateText cfg net m text sourceLang targetLang =
     (let provider = currentProvider m;
          systemPrompt = translation_prompt sourceLang targetLang
      in if provider = ''openai'' then translate_chat ''OpenAI'' (openai cfg) net systemPrompt text
         else if provider = ''mistral'' then translate_chat ''Mistral'' (mistral cfg) net systemPrompt text
         else if provider = ''gemini'' then translate_gemini (gemini cfg) net systemPrompt text
         else ([], Inl (Error ''Unknown provider'')))"

section \<open>Sending a message (the chat interface)\<close>

text \<open>
  Of the interface, the fields \<open>sendMessage\<close> reads and writes: the text of the input
  box, the \<open>isProcessing\<close> flag, the service manager, and the messages put into the chat
  container, each with the class it is shown under. Rendering, the typing indicator and
  the stored chat list are left out.
\<close>

datatype message_view =
    SystemMessage string
  | Message jsval string

record chat_interface =
  messageInput :: string
  isProcessing :: bool
  aiManager :: manager
  chatContainer :: "message_view list"

definition addSystemMessage :: "chat_interface \<Rightarrow> string \<Rightarrow> chat_interface" where
  "addSystemMessage ui c = ui \<lparr> chatContainer := chatContainer ui @ [SystemMessage c] \<rparr>"

definition addMessage :: "chat_interface \<Rightarrow> jsval \<Rightarrow> string \<Rightarrow> chat_interface" where
  "addMessage ui c sender = ui \<lparr> chatContainer := chatContainer ui @ [Message c sender] \<rparr>"

text \<open>The warning sign and its variation selector, in UTF-8, begin the message.\<close>

definition configure_key_message :: "string \<Rightarrow> string" where
  "configure_key_message name =
     [CHR 0xE2, CHR 0x9A, CHR 0xA0, CHR 0xEF, CHR 0xB8, CHR 0x8F]
     @ '' **Please configure your '' @ name @ '' API key**'' @ [CHR 0x0A, CHR 0x0A]
     @ ''Add your API key in `config.js`''"

text \<open>
  \<open>sendMessage\<close> returns the interface afterwards, the requests sent, and the error
  that escapes it, if one does. For a provider name without an own entry in
  \<open>AI_CONFIG\<close>, \<open>currentProvider.config\<close> is an inherited value when the name is one of
  \<open>Object.prototype\<close>, whose \<open>apiKey\<close> is \<open>undefined\<close>, so the configuration message is
  shown; for any other name it is \<open>undefined\<close> and reading \<open>apiKey\<close> throws.
\<close>

definition sendMessage ::
  "ai_config \<Rightarrow> network \<Rightarrow> chat_interface \<Rightarrow> chat_interface \<times> request list \<times> error option" where
  "sendMessage cfg net ui =
     (let message = trim (messageInput ui) in
      if message = [] \<or> isProcessing ui then (ui, [], None)
      else
        case getCurrentProvider cfg (aiManager ui) of
          (name, None) \<Rightarrow>
            if name \<in> set object_prototype
            then (addSystemMessage ui (configure_key_message name), [], None)
            else (ui, [], Some (TypeError ''Cannot read properties of undefined (reading 'apiKey')''))
        | (name, Some config) \<Rightarrow>
            if apiKey config = [] \<or> trim (apiKey config) = []
            then (addSystemMessage ui (configure_key_message name), [], None)
            else
              let ui1 = (addMessage ui (JStr message) ''user'') \<lparr> messageInput := [], isProcessing := True \<rparr>;
                  (m', reqs, r) = getAIResponse cfg net (aiManager ui1) message;
                  ui2 = ui1 \<lparr> aiManager := m' \<rparr>;
                  ui3 = (case r of
                           Inr aiResponse \<Rightarrow> addMessage ui2 aiResponse ''ai''
                         | Inl e \<Rightarrow> addMessage ui2
                             (JStr (''Sorry, I encountered an error: '' @ error_message e)) ''ai'')
              in (ui3 \<lparr> isProcessing := False \<rparr>, reqs, None))"

section \<open>The DOM (script.js, \<open>sanitizeHTML\<close>)\<close>

text \<open>
  What \<open>tempDiv.innerHTML = html\<close> leaves under \<open>tempDiv\<close>: text nodes, elements
  with their local name, their attributes in order and their children, and comments
  (the node types the fragment parser creates). Namespaces are left out: the sanitizer
  reads \<open>tagName\<close> only, and an SVG or MathML subtree starts at an \<open>svg\<close> or \<open>math\<close>
  element, which is flattened like any tag that is not allowed.
\<close>

datatype node =
    Text string
  | Element string "(string \<times> string) list" "node list"
  | Comment string

text \<open>
  \<open>String.prototype.toLowerCase\<close> on code units below 256: A to Z and the Latin-1
  capitals (all of 0xC0 to 0xDE but the multiplication sign) move up by 32.
  \<open>tagName\<close> of an HTML element is its name with a to z in upper case, and
  \<open>createElement\<close> puts A to Z of the name it is given in lower case.
\<close>

definition to_lower_char :: "char \<Rightarrow> char" where
  "to_lower_char c =
     (let n = (of_char c :: nat)
      in if (65 \<le> n \<and> n \<le> 90) \<or> (192 \<le> n \<and> n \<le> 222 \<and> n \<noteq> 215) then char_of (n + 32) else c)"

definition toLowerCase :: "string \<Rightarrow> string" where
  "toLowerCase s = map to_lower_char s"

definition ascii_upper_char :: "char \<Rightarrow> char" where
  "ascii_upper_char c = (let n = (of_char c :: nat) in if 97 \<le> n \<and> n \<le> 122 then char_of (n - 32) else c)"

definition ascii_lower_char :: "char \<Rightarrow> char" where
  "ascii_lower_char c = (let n = (of_char c :: nat) in if 65 \<le> n \<and> n \<le> 90 then char_of (n + 32) else c)"

definition tagName :: "string \<Rightarrow> string" where
  "tagName name = map ascii_upper_char name"

text \<open>\<open>node.textContent\<close>: the data of the text nodes below the node, in tree order.\<close>

fun textContent :: "node \<Rightarrow> string"
  and textContents :: "node list \<Rightarrow> string" where
  "textContent (Text s) = s"
| "textContent (Comment s) = []"
| "textContent (Element name attrs children) = textContents children"
| "textContents [] = []"
| "textContents (n # ns) = textContent n @ textContents ns"

text \<open>The table \<open>allowedTags\<close>, an object literal: its own properties, in source order.\<close>

definition allowedTags :: "(string \<times> string list) list" where
  "allowedTags =
     [(''p'', []),
      (''h1'', []), (''h2'', []), (''h3'', []), (''h4'', []), (''h5'', []), (''h6'', []),
      (''ul'', []), (''ol'', []), (''li'', []),
      (''blockquote'', []),
      (''code'', []),
      (''pre'', []),
      (''strong'', []), (''b'', []),
      (''em'', []), (''i'', []),
      (''a'', [''href'']),
      (''hr'', []),
      (''table'', []), (''thead'', []), (''tbody'', []), (''tr'', []), (''th'', []), (''td'', []),
      (''img'', [''src'', ''alt'']),
      (''br'', []),
      (''span'', [''class''])]"

text \<open>
  \<open>allowedTags[tagName]\<close> is a property read on a plain object, so a name the table does
  not have as its own is looked up on \<open>Object.prototype\<close>. Its properties are functions
  (\<open>__proto__\<close> gives the prototype object): truthy values that are not arrays. The read
  gives the array of a tag of the table (\<open>Own\<close>), such an inherited value (\<open>Inherited\<close>)
  or \<open>undefined\<close> (\<open>Missing\<close>).
\<close>

datatype tag_entry = Own "string list" | Inherited | Missing

definition allowedTags_get :: "string \<Rightarrow> tag_entry" where
  "allowedTags_get t =
     (case map_of allowedTags t of
        Some names \<Rightarrow> Own names
      | None \<Rightarrow> if t \<in> set object_prototype then Inherited else Missing)"

text \<open>
  The table \<open>allowedAttributes\<close> of validators. It is read only for a name that
  \<open>allowedTags[tagName].includes\<close> has accepted, which is one of its four own names.
\<close>

definition allowedAttributes :: "string \<Rightarrow> (string \<Rightarrow> bool) option" where
  "allowedAttributes a =
     (if a = ''href'' then Some (\<lambda>v. startsWith v ''http://'' \<or> startsWith v ''https://'' \<or> startsWith v ''#'')
      else if a = ''src'' then Some (\<lambda>v. startsWith v ''http://'' \<or> startsWith v ''https://'' \<or> startsWith v ''data:'')
      else if a = ''alt'' then Some (\<lambda>v. True)
      else if a = ''class'' then Some (\<lambda>v. True)
      else None)"

definition attribute_ok :: "string \<Rightarrow> string \<Rightarrow> bool" where
  "attribute_ok a v = (case allowedAttributes a of Some f \<Rightarrow> f v | None \<Rightarrow> False)"

text \<open>\<open>newElement.setAttribute(name, value)\<close>: the value of an attribute already there is replaced, a new one goes last.\<close>

fun setAttribute :: "(string \<times> string) list \<Rightarrow> string \<Rightarrow> string \<Rightarrow> (string \<times> string) list" where
  "setAttribute [] a v = [(a, v)]"
| "setAttribute ((b, w) # as) a v = (if b = a then (b, v) # as else (b, w) # setAttribute as a v)"

text \<open>
  The loop over \<open>node.attributes\<close>. For an inherited value \<open>.includes\<close> is
  \<open>undefined\<close> and the call throws at the first attribute.
\<close>

fun copyAttributes :: "tag_entry \<Rightarrow> (string \<times> string) list \<Rightarrow> (string \<times> string) list \<Rightarrow> error + (string \<times> string) list" where
  "copyAttributes entry [] new = Inr new"
| "copyAttributes entry ((name, attrValue) # rest) new =
     (let attrName = toLowerCase name in
      case entry of
        Own names \<Rightarrow>
          if attrName \<in> set names \<and> attribute_ok attrName attrValue
          then copyAttributes entry rest (setAttribute new attrName attrValue)
          else copyAttributes entry rest new
      | _ \<Rightarrow> Inl (TypeError ''allowedTags[tagName].includes is not a function''))"

text \<open>
  \<open>sanitizeNode\<close>: a text node is cloned; an element whose tag reads as \<open>undefined\<close>
  becomes a text node of its text content; any other element is created anew, with the
  admitted attributes and the sanitized children; any other node gives \<open>null\<close>
  (\<open>None\<close>), which the caller skips. \<open>sanitizeNodes\<close> is the loop over the child nodes, in
  \<open>sanitizeNode\<close> and at the top level.
\<close>

fun sanitizeNode :: "node \<Rightarrow> error + node option"
  and sanitizeNodes :: "node list \<Rightarrow> error + node list" where
  "sanitizeNode (Text s) = Inr (Some (Text s))"
| "sanitizeNode (Comment s) = Inr None"
| "sanitizeNode (Element name attrs children) =
     (let t = toLowerCase (tagName name) in
      case allowedTags_get t of
        Missing \<Rightarrow> Inr (Some (Text (textContents children)))
      | entry \<Rightarrow>
          bindE (copyAttributes entry attrs []) (\<lambda>newAttrs.
          bindE (sanitizeNodes children) (\<lambda>newChildren.
            Inr (Some (Element (map ascii_lower_char t) newAttrs newChildren)))))"
| "sanitizeNodes [] = Inr []"
| "sanitizeNodes (child # rest) =
     bindE (sanitizeNode child) (\<lambda>sanitized.
     bindE (sanitizeNodes rest) (\<lambda>others.
       Inr (case sanitized of None \<Rightarrow> others | Some n \<Rightarrow> n # others)))"


section \<open>Serialising (the \<open>innerHTML\<close> getter)\<close>

text \<open>
  The fragment serialisation of the HTML Standard, which the getter runs on \<open>tempDiv\<close>:
  start tag with the attributes, children and end tag; no children and no end tag for a
  void element; text escaped unless its parent is a raw text element; attribute values
  escaped in attribute mode (there the double quote too, and \<open><\<close> and \<open>>\<close> as the
  standard now has it).
\<close>

definition void_elements :: "string list" where
  "void_elements = [''area'', ''base'', ''basefont'', ''bgsound'', ''br'', ''col'', ''embed'', ''frame'',
     ''hr'', ''img'', ''input'', ''keygen'', ''link'', ''meta'', ''param'', ''source'', ''track'', ''wbr'']"

definition raw_text_parents :: "string list" where
  "raw_text_parents = [''style'', ''script'', ''xmp'', ''iframe'', ''noembed'', ''noframes'', ''plaintext'', ''noscript'']"

fun escape_text :: "string \<Rightarrow> string" where
  "escape_text [] = []"
| "escape_text (c # cs) =
     (if c = CHR ''&'' then ''&amp;''
      else if c = CHR 0xA0 then ''&nbsp;''
      else if c = CHR ''<'' then ''&lt;''
      else if c = CHR ''>'' then ''&gt;''
      else [c]) @ escape_text cs"

fun escape_attr :: "string \<Rightarrow> string" where
  "escape_attr [] = []"
| "escape_attr (c # cs) =
     (if c = CHR ''&'' then ''&amp;''
      else if c = CHR 0xA0 then ''&nbsp;''
      else if c = CHR 0x22 then ''&quot;''
      else if c = CHR ''<'' then ''&lt;''
      else if c = CHR ''>'' then ''&gt;''
      else [c]) @ escape_attr cs"

fun serialize_attrs :: "(string \<times> string) list \<Rightarrow> string" where
  "serialize_attrs [] = []"
| "serialize_attrs ((a, v) # rest) =
     '' '' @ a @ ''='' @ [CHR 0x22] @ escape_attr v @ [CHR 0x22] @ serialize_attrs rest"

fun serialize_node :: "string \<Rightarrow> node \<Rightarrow> string"
  and serialize_nodes :: "string \<Rightarrow> node list \<Rightarrow> string" where
  "serialize_node parent (Text s) = (if parent \<in> set raw_text_parents then s else escape_text s)"
| "serialize_node parent (Comment s) = ''<!--'' @ s @ ''-->''"
| "serialize_node parent (Element name attrs children) =
     ''<'' @ name @ serialize_attrs attrs @ ''>''
     @ (if name \<in> set void_elements then []
        else serialize_nodes name children @ ''</'' @ name @ ''>'')"
| "serialize_nodes parent [] = []"
| "serialize_nodes parent (n # ns) = serialize_node parent n @ serialize_nodes parent ns"

definition innerHTML :: "node list \<Rightarrow> string" where
  "innerHTML children = serialize_nodes ''div'' children"

section \<open>Parsing (the \<open>innerHTML\<close> setter)\<close>

text \<open>
  The setter runs the fragment parser of the HTML Standard with a \<open>div\<close> as context
  element. The model follows the standard's tokenizer and its tree construction in the
  \<open>in body\<close> insertion mode on a part of the inputs and gives \<open>None\<close> on every other
  input, so that it says nothing about them. It reads lower-case tags with double-quoted
  attributes, text, the references \<open>&amp;\<close>, \<open>&lt;\<close>, \<open>&gt;\<close>, \<open>&quot;\<close> and
  \<open>&nbsp;\<close>, and \<open>script\<close> contents without \<open><\<close>; it gives \<open>None\<close> where the
  standard would repair the markup (an end tag that does not close the current node, a
  tag that would close an open \<open>p\<close>, nested \<open>a\<close>, table and form content, a
  document left open at the end).
\<close>

datatype token =
    Character char
  | StartTag string "(string \<times> string) list"
  | EndTag string

text \<open>The tokenizer's states, each with what it has read so far of the token.\<close>

datatype tokenizer_state =
    DataState
  | CharRefInData string
  | TagOpen
  | EndTagOpen
  | TagNameState string
  | EndTagName string
  | BeforeAttrName string "(string \<times> string) list"
  | AttrNameState string "(string \<times> string) list" string
  | BeforeAttrValue string "(string \<times> string) list" string
  | AttrValue string "(string \<times> string) list" string string
  | CharRefInAttr string "(string \<times> string) list" string string string
  | AfterAttrValue string "(string \<times> string) list"
  | ScriptData
  | ScriptDataEnd string

definition lower_alpha :: "char \<Rightarrow> bool" where
  "lower_alpha c = (97 \<le> (of_char c :: nat) \<and> (of_char c :: nat) \<le> 122)"

definition digit :: "char \<Rightarrow> bool" where
  "digit c = (48 \<le> (of_char c :: nat) \<and> (of_char c :: nat) \<le> 57)"

definition html_space :: "char \<Rightarrow> bool" where
  "html_space c = (c \<in> set [CHR 0x09, CHR 0x0A, CHR 0x0C, CHR 0x20])"

definition unsupported_char :: "char \<Rightarrow> bool" where
  "unsupported_char c = (c = CHR 0x00 \<or> c = CHR 0x0D)"

definition decode_ref :: "string \<Rightarrow> char option" where
  "decode_ref r =
     (if r = ''amp'' then Some CHR ''&''
      else if r = ''lt'' then Some CHR ''<''
      else if r = ''gt'' then Some CHR ''>''
      else if r = ''quot'' then Some (CHR 0x22)
      else if r = ''nbsp'' then Some (CHR 0xA0)
      else None)"

definition after_start_tag :: "string \<Rightarrow> tokenizer_state" where
  "after_start_tag name = (if name = ''script'' then ScriptData else DataState)"

text \<open>One character is consumed at each step, as in the standard's state machine.\<close>

fun tokenize :: "tokenizer_state \<Rightarrow> string \<Rightarrow> token list option" where
  "tokenize st [] = (if st = DataState then Some [] else None)"
| "tokenize DataState (c # cs) =
     (if c = CHR ''<'' then tokenize TagOpen cs
      else if c = CHR ''&'' then tokenize (CharRefInData []) cs
      else if unsupported_char c then None
      else map_option ((#) (Character c)) (tokenize DataState cs))"
| "tokenize (CharRefInData r) (c # cs) =
     (if c = CHR '';'' then
        (case decode_ref r of
           None \<Rightarrow> None
         | Some d \<Rightarrow> map_option ((#) (Character d)) (tokenize DataState cs))
      else if lower_alpha c then tokenize (CharRefInData (r @ [c])) cs
      else None)"
| "tokenize TagOpen (c # cs) =
     (if lower_alpha c then tokenize (TagNameState [c]) cs
      else if c = CHR ''/'' then tokenize EndTagOpen cs
      else None)"
| "tokenize EndTagOpen (c # cs) =
     (if lower_alpha c then tokenize (EndTagName [c]) cs else None)"
| "tokenize (TagNameState name) (c # cs) =
     (if lower_alpha c \<or> digit c then tokenize (TagNameState (name @ [c])) cs
      else if html_space c then tokenize (BeforeAttrName name []) cs
      else if c = CHR ''>'' then map_option ((#) (StartTag name [])) (tokenize (after_start_tag name) cs)
      else None)"
| "tokenize (EndTagName name) (c # cs) =
     (if lower_alpha c \<or> digit c then tokenize (EndTagName (name @ [c])) cs
      else if c = CHR ''>'' then map_option ((#) (EndTag name)) (tokenize DataState cs)
      else None)"
| "tokenize (BeforeAttrName name attrs) (c # cs) =
     (if html_space c then tokenize (BeforeAttrName name attrs) cs
      else if c = CHR ''>'' then map_option ((#) (StartTag name attrs)) (tokenize (after_start_tag name) cs)
      else if lower_alpha c then tokenize (AttrNameState name attrs [c]) cs
      else None)"
| "tokenize (AttrNameState name attrs a) (c # cs) =
     (if lower_alpha c \<or> digit c \<or> c = CHR ''-'' then tokenize (AttrNameState name attrs (a @ [c])) cs
      else if c = CHR ''='' then tokenize (BeforeAttrValue name attrs a) cs
      else None)"
| "tokenize (BeforeAttrValue name attrs a) (c # cs) =
     (if c = CHR 0x22 then tokenize (AttrValue name attrs a []) cs else None)"
| "tokenize (AttrValue name attrs a v) (c # cs) =
     (if c = CHR 0x22 then
        (if a \<in> fst ` set attrs then None else tokenize (AfterAttrValue name (attrs @ [(a, v)])) cs)
      else if c = CHR ''&'' then tokenize (CharRefInAttr name attrs a v []) cs
      else if unsupported_char c then None
      else tokenize (AttrValue name attrs a (v @ [c])) cs)"
| "tokenize (CharRefInAttr name attrs a v r) (c # cs) =
     (if c = CHR '';'' then
        (case decode_ref r of
           None \<Rightarrow> None
         | Some d \<Rightarrow> tokenize (AttrValue name attrs a (v @ [d])) cs)
      else if lower_alpha c then tokenize (CharRefInAttr name attrs a v (r @ [c])) cs
      else None)"
| "tokenize (AfterAttrValue name attrs) (c # cs) =
     (if html_space c then tokenize (BeforeAttrName name attrs) cs
      else if c = CHR ''>'' then map_option ((#) (StartTag name attrs)) (tokenize (after_start_tag name) cs)
      else None)"
| "tokenize ScriptData (c # cs) =
     (if c = CHR ''<'' then tokenize (ScriptDataEnd ''/script>'') cs
      else if unsupported_char c then None
      else map_option ((#) (Character c)) (tokenize ScriptData cs))"
| "tokenize (ScriptDataEnd expected) (c # cs) =
     (case expected of
        [] \<Rightarrow> None
      | e # es \<Rightarrow>
          if c \<noteq> e then None
          else if es = [] then map_option ((#) (EndTag ''script'')) (tokenize DataState cs)
          else tokenize (ScriptDataEnd es) cs)"

text \<open>
  The start tags that \<open>in body\<close> names, by the rule that handles them; a tag it does
  not name is an ordinary element. The kinds marked \<open>Unsupported\<close> are not modelled.
\<close>

datatype tag_kind = Block | Heading | Pre | Anchor | Formatting | Void | Rule | RawScript | Ordinary | Unsupported

definition headings :: "string list" where
  "headings = [''h1'', ''h2'', ''h3'', ''h4'', ''h5'', ''h6'']"

definition start_tag_kind :: "string \<Rightarrow> tag_kind" where
  "start_tag_kind name =
     (if name \<in> set [''address'', ''article'', ''aside'', ''blockquote'', ''center'', ''details'', ''dialog'',
                      ''dir'', ''div'', ''dl'', ''fieldset'', ''figcaption'', ''figure'', ''footer'', ''header'',
                      ''hgroup'', ''main'', ''menu'', ''nav'', ''ol'', ''p'', ''search'', ''section'',
                      ''summary'', ''ul''] then Block
      else if name \<in> set headings then Heading
      else if name = ''pre'' \<or> name = ''listing'' then Pre
      else if name = ''a'' then Anchor
      else if name \<in> set [''b'', ''big'', ''code'', ''em'', ''font'', ''i'', ''s'', ''small'', ''strike'',
                           ''strong'', ''tt'', ''u''] then Formatting
      else if name \<in> set [''area'', ''br'', ''embed'', ''img'', ''keygen'', ''wbr''] then Void
      else if name = ''hr'' then Rule
      else if name = ''script'' then RawScript
      else if name \<in> set [''html'', ''base'', ''basefont'', ''bgsound'', ''link'', ''meta'', ''noframes'',
                           ''style'', ''template'', ''title'', ''body'', ''frameset'', ''form'', ''li'', ''dd'',
                           ''dt'', ''plaintext'', ''button'', ''nobr'', ''applet'', ''marquee'', ''object'',
                           ''table'', ''input'', ''param'', ''source'', ''track'', ''image'', ''textarea'',
                           ''xmp'', ''iframe'', ''noembed'', ''noscript'', ''select'', ''optgroup'', ''option'',
                           ''rb'', ''rtc'', ''rp'', ''rt'', ''math'', ''svg'', ''caption'', ''col'', ''colgroup'',
                           ''frame'', ''head'', ''tbody'', ''td'', ''tfoot'', ''th'', ''thead'', ''tr''] then Unsupported
      else Ordinary)"

text \<open>
  The stack of open elements, the current node first: name, attributes and the children
  appended so far, last child first. The bottom entry is the root \<open>html\<close> element of the
  fragment case, whose children are the result.
\<close>

type_synonym open_element = "string \<times> (string \<times> string) list \<times> node list"

fun insert_character :: "char \<Rightarrow> node list \<Rightarrow> node list" where
  "insert_character c (Text s # kids) = Text (s @ [c]) # kids"
| "insert_character c kids = Text [c] # kids"

text \<open>
  Tree construction. After \<open>pre\<close> a line feed that comes next is dropped
  (\<open>skip_lf\<close>). A character joins the text node before it.
\<close>

fun build :: "token list \<Rightarrow> bool \<Rightarrow> open_element list \<Rightarrow> node list option" where
  "build [] skip_lf [(name, attrs, kids)] = Some (rev kids)"
| "build [] skip_lf stack = None"
| "build (tok # toks) skip_lf [] = None"
| "build (Character c # toks) skip_lf ((name, attrs, kids) # stack) =
     (if skip_lf \<and> c = CHR 0x0A then build toks False ((name, attrs, kids) # stack)
      else build toks False ((name, attrs, insert_character c kids) # stack))"
| "build (StartTag tag tattrs # toks) skip_lf ((name, attrs, kids) # stack) =
     (let kind = start_tag_kind tag;
          opened = name # map fst stack
      in if kind = Unsupported then None
         else if kind \<in> {Block, Heading, Pre, Rule} \<and> ''p'' \<in> set opened then None
         else if kind = Heading \<and> name \<in> set headings then None
         else if kind = Anchor \<and> ''a'' \<in> set opened then None
         else if kind \<in> {Void, Rule}
           then build toks False ((name, attrs, Element tag tattrs [] # kids) # stack)
         else build toks (kind = Pre) ((tag, tattrs, []) # (name, attrs, kids) # stack))"
| "build (EndTag tag # toks) skip_lf [bottom] = None"
| "build (EndTag tag # toks) skip_lf ((name, attrs, kids) # (pname, pattrs, pkids) # stack) =
     (if name = tag
      then build toks False ((pname, pattrs, Element name attrs (rev kids) # pkids) # stack)
      else None)"

definition parse_fragment :: "string \<Rightarrow> node list option" where
  "parse_fragment html =
     (case tokenize DataState html of
        None \<Rightarrow> None
      | Some toks \<Rightarrow> build toks False [(''html'', [], [])])"

text \<open>
  \<open>sanitizeHTML\<close>, from the parsed child nodes on (\<open>sanitize_dom\<close>) and from the string
  (\<open>None\<close> where the parser model does not read the input).
\<close>

definition sanitize_dom :: "node list \<Rightarrow> error + string" where
  "sanitize_dom childNodes = bindE (sanitizeNodes childNodes) (\<lambda>sanitizedNodes. Inr (innerHTML sanitizedNodes))"

definition sanitizeHTML :: "string \<Rightarrow> (error + string) option" where
  "sanitizeHTML html = map_option sanitize_dom (parse_fragment html)"

text \<open>
  Serialising writes neighbouring text nodes as one run of characters and an empty one
  as nothing. \<open>merge_text\<close> is the tree with each such run in a single text node, as a
  parser builds it from the characters.
\<close>

fun merge_text :: "node list \<Rightarrow> node list" where
  "merge_text [] = []"
| "merge_text (Text s # ns) =
     (if s = [] then merge_text ns
      else case merge_text ns of
             Text t # rest \<Rightarrow> Text (s @ t) # rest
           | rest \<Rightarrow> Text s # rest)"
| "merge_text (Element name attrs children # ns) = Element name attrs (merge_text children) # merge_text ns"
| "merge_text (Comment c # ns) = Comment c # merge_text ns"

text \<open>Predicates used to state what the attribute loop does.\<close>

definition admitted :: "string list \<Rightarrow> string \<times> string \<Rightarrow> bool" where
  "admitted names = (\<lambda>(a, v). a \<in> set names \<and> attribute_ok a v)"

definition lower_name :: "string \<times> string \<Rightarrow> string \<times> string" where
  "lower_name = (\<lambda>(a, v). (toLowerCase a, v))"

definition settled :: "string list \<Rightarrow> (string \<times> string) list \<Rightarrow> bool" where
  "settled names new =
     (distinct (map fst new) \<and> list_all (\<lambda>(a, v). a \<in> set names \<and> attribute_ok a v \<and> toLowerCase a = a) new)"

section \<open>Example inputs\<close>

definition twelve_turns :: "turn list" where
  "twelve_turns = map (\<lambda>n. \<lparr> role = ''user'', content = JNum (int n) \<rparr>) [0 ..< 12]"

text \<open>A configuration with keys for OpenAI and Gemini, and token limits above and below 1000.\<close>

definition example_config :: ai_config where
  "example_config = AI_CONFIG
     \<lparr> openai := (openai AI_CONFIG) \<lparr> apiKey := ''sk-example'', maxTokens := 4096 \<rparr>,
       gemini := (gemini AI_CONFIG) \<lparr> apiKey := ''example-key'', maxTokens := 512 \<rparr> \<rparr>"

text \<open>A network that answers every request with status 200 and the given body, and one that is down.\<close>

definition net_reply :: "jsval \<Rightarrow> network" where
  "net_reply data = (\<lambda>req. Response True 200 ''OK'' (Some data))"

definition net_down :: network where
  "net_down = (\<lambda>req. Rejected (TypeError ''Failed to fetch''))"

definition chat_reply :: "string \<Rightarrow> jsval" where
  "chat_reply s =
     JObj [(''choices'', JArr [JObj [(''message'', JObj [(''role'', JStr ''assistant''), (''content'', JStr s)])]])]"

definition fresh_interface :: "string \<Rightarrow> chat_interface" where
  "fresh_interface input =
     \<lparr> messageInput = input, isProcessing = False, aiManager = new_manager, chatContainer = [] \<rparr>"

text \<open>The HTML inputs of the scenarios; \<open>CHR 0x22\<close> is the double quote.\<close>

definition scenario_html :: string where
  "scenario_html = ''<p>Hi <b>there</b></p><script>bad()</script>''"

definition scenario_dom :: "node list" where
  "scenario_dom =
     [Element ''p'' [] [Text ''Hi '', Element ''b'' [] [Text ''there'']],
      Element ''script'' [] [Text ''bad()'']]"

definition link_html :: string where
  "link_html = ''<a href='' @ [CHR 0x22] @ ''javascript:alert(1)'' @ [CHR 0x22] @ ''>x</a>''"

definition image_html :: string where
  "image_html = ''<img src='' @ [CHR 0x22] @ ''https://x/y.png'' @ [CHR 0x22]
     @ '' onload='' @ [CHR 0x22] @ ''evil()'' @ [CHR 0x22] @ ''>''"


definition constructor_html :: string where
  "constructor_html = ''<constructor>x</constructor>''"

definition pre_html :: string where
  "pre_html = ''<pre>'' @ [CHR 0x0A, CHR 0x0A] @ ''x</pre>''"

definition pre_once :: string where
  "pre_once = ''<pre>'' @ [CHR 0x0A] @ ''x</pre>''"

definition pre_twice :: string where
  "pre_twice = ''<pre>x</pre>''"

text \<open>An input whose sanitized nodes have two text nodes side by side.\<close>

definition adjacent_html :: string where
  "adjacent_html = ''a<script>b</script><p>c</p>''"

definition adjacent_dom :: "node list" where
  "adjacent_dom = [Text ''a'', Element ''script'' [] [Text ''b''], Element ''p'' [] [Text ''c'']]"

definition adjacent_sanitized :: "node list" where
  "adjacent_sanitized = [Text ''a'', Text ''b'', Element ''p'' [] [Text ''c'']]"

text \<open>
  A configuration with a key for each provider and the three token limits above, at and
  below 1000; each temperature is the shipped 0.7.
\<close>

definition translation_config :: ai_config where
  "translation_config = AI_CONFIG
     \<lparr> openai := (openai AI_CONFIG) \<lparr> apiKey := ''sk-example'', maxTokens := 4096 \<rparr>,
       mistral := (mistral AI_CONFIG) \<lparr> apiKey := ''mistral-example'', maxTokens := 1000 \<rparr>,
       gemini := (gemini AI_CONFIG) \<lparr> apiKey := ''example-key'', maxTokens := 512 \<rparr> \<rparr>"

text \<open>The request target of a provider: Gemini takes the key in the URL, the others in a header.\<close>

definition provider_url :: "string \<Rightarrow> provider_config \<Rightarrow> string" where
  "provider_url name config =
     (if name = ''gemini'' then endpoint config @ ''?key='' @ apiKey config else endpoint config)"

definition provider_authorization :: "string \<Rightarrow> provider_config \<Rightarrow> string option" where
  "provider_authorization name config =
     (if name = ''gemini'' then None else Some (''Bearer '' @ apiKey config))"



section \<open>Properties of the conversation history\<close>

lemma addToHistory_frame:
  "maxHistoryLength (addToHistory m r c) = maxHistoryLength m"
  "currentProvider (addToHistory m r c) = currentProvider m"
  by (simp_all add: addToHistory_def Let_def)

lemma addToHistory_history:
  "0 < maxHistoryLength m \<Longrightarrow>
   conversationHistory (addToHistory m r c) =
     drop (Suc (length (conversationHistory m)) - maxHistoryLength m)
       (conversationHistory m @ [\<lparr> role = r, content = c \<rparr>])"
  by (simp add: addToHistory_def Let_def slice_neg_def)


lemma drop_drop_append_last:
  "drop (length (drop a (h @ [t])) + length ts - n) (drop a (h @ [t]) @ ts)
     = drop (length h + Suc (length ts) - n) (h @ t # ts)"
  if "a = Suc (length h) - n" "0 < n"
proof (cases "Suc (length h) \<le> n")
  case True
  with that show ?thesis by simp
next
  case False
  with that have a: "a \<le> length h" "a + n = Suc (length h)" by simp_all
  then have "length (drop a (h @ [t])) + length ts - n = length ts" by simp
  moreover have "length h + Suc (length ts) - n = a + length ts" using a by simp
  moreover have "drop (a + length ts) (h @ t # ts) = drop (length ts) (drop a (h @ [t]) @ ts)"
    using a by (simp add: add.commute)
  ultimately show ?thesis by simp
qed

lemma appendAll_history:
  "0 < maxHistoryLength m \<Longrightarrow> ts \<noteq> [] \<Longrightarrow>
   conversationHistory (appendAll m ts) =
     drop (length (conversationHistory m) + length ts - maxHistoryLength m)
       (conversationHistory m @ ts)"
proof (induction ts arbitrary: m)
  case Nil
  then show ?case by simp
next
  case (Cons t ts)
  let ?m' = "addToHistory m (role t) (content t)"
  have h': "conversationHistory ?m' =
      drop (Suc (length (conversationHistory m)) - maxHistoryLength m) (conversationHistory m @ [t])"
    using Cons.prems(1) by (simp add: addToHistory_history)
  show ?case
  proof (cases "ts = []")
    case True
    then show ?thesis using h' by simp
  next
    case False
    have "conversationHistory (appendAll ?m' ts) =
        drop (length (conversationHistory ?m') + length ts - maxHistoryLength m)
          (conversationHistory ?m' @ ts)"
      using Cons.IH [of ?m'] Cons.prems(1) False by (simp add: addToHistory_frame)
    also have "\<dots> = drop (length (conversationHistory m) + Suc (length ts) - maxHistoryLength m)
          (conversationHistory m @ t # ts)"
      unfolding h' using Cons.prems(1) by (rule drop_drop_append_last [OF refl])
    finally show ?thesis by simp
  qed
qed


text \<open>
  C4. After a sequence of appends that is at least as long as the capacity, the history
  holds exactly the last \<open>maxHistoryLength\<close> turns appended, in their order, so its
  length is the capacity. The history the sequence starts from does not matter. The
  capacity is positive: it is the 10 of the constructor in every manager the code builds.
\<close>

theorem history_keeps_last_N:
  assumes "0 < maxHistoryLength m" and "maxHistoryLength m \<le> length ts"
  shows "conversationHistory (appendAll m ts) = drop (length ts - maxHistoryLength m) ts
       \<and> length (conversationHistory (appendAll m ts)) = maxHistoryLength m"
proof -
  from assms have ne: "ts \<noteq> []" by auto
  have "conversationHistory (appendAll m ts) =
      drop (length (conversationHistory m) + length ts - maxHistoryLength m)
        (conversationHistory m @ ts)"
    using assms(1) ne by (rule appendAll_history)
  also have "\<dots> = drop (length ts - maxHistoryLength m) ts"
    using assms(2) by simp
  finally have eq: "conversationHistory (appendAll m ts) = drop (length ts - maxHistoryLength m) ts" .
  moreover have "length (drop (length ts - maxHistoryLength m) ts) = maxHistoryLength m"
    using assms(2) by simp
  ultimately show ?thesis by simp
qed

text \<open>
  The default manager (capacity 10) after twelve appends: the first two turns are gone,
  the last ten remain in order.
\<close>

theorem history_keeps_last_N_witness:
  "0 < maxHistoryLength new_manager \<and> maxHistoryLength new_manager \<le> length twelve_turns
   \<and> conversationHistory (appendAll new_manager twelve_turns) = drop 2 twelve_turns
   \<and> length (conversationHistory (appendAll new_manager twelve_turns)) = 10"
proof -
  have a: "0 < maxHistoryLength new_manager" by (simp add: new_manager_def)
  have b: "maxHistoryLength new_manager \<le> length twelve_turns"
    by (simp add: new_manager_def twelve_turns_def)
  show ?thesis
    using a b history_keeps_last_N [OF a b] by (simp add: new_manager_def twelve_turns_def)
qed

section \<open>The capacity\<close>








section \<open>Properties of the provider calls\<close>

lemma trim_Nil: "trim [] = []"
  by (simp add: trim_def)

lemma trim_nonempty: "trim s \<noteq> [] \<Longrightarrow> s \<noteq> []"
  by (auto simp: trim_Nil)

lemma addToHistory_last:
  "conversationHistory (addToHistory m r c) \<noteq> []
   \<and> last (conversationHistory (addToHistory m r c)) = \<lparr> role = r, content = c \<rparr>"
  by (auto simp: addToHistory_def Let_def slice_neg_def)

lemma getAIResponse_requests:
  "fst (snd (getAIResponse cfg net m u)) = fst (dispatch cfg net (addToHistory m ''user'' (JStr u)) u)"
  by (simp add: getAIResponse_def Let_def split: prod.splits sum.splits)

text \<open>
  C5. \<open>getAIResponse\<close> appends the user turn before the provider call. When the call
  fails, the manager is left exactly as that append made it (the user turn last, no
  assistant turn), and the error returned is the one the call threw. When it succeeds,
  the assistant turn with the returned value is appended after it; from an empty history
  of capacity at least two that leaves the two turns, user then assistant.
\<close>

theorem getAIResponse_turns:
  "getAIResponse cfg net m userMessage = (m', reqs, r) \<Longrightarrow>
     (reqs, r) = dispatch cfg net (addToHistory m ''user'' (JStr userMessage)) userMessage
   \<and> (\<forall>e. r = Inl e \<longrightarrow>
          m' = addToHistory m ''user'' (JStr userMessage)
        \<and> last (conversationHistory m') = \<lparr> role = ''user'', content = JStr userMessage \<rparr>)
   \<and> (\<forall>response. r = Inr response \<longrightarrow>
          m' = addToHistory (addToHistory m ''user'' (JStr userMessage)) ''assistant'' response
        \<and> (conversationHistory m = [] \<and> 2 \<le> maxHistoryLength m \<longrightarrow>
             conversationHistory m' =
               [\<lparr> role = ''user'', content = JStr userMessage \<rparr>,
                \<lparr> role = ''assistant'', content = response \<rparr>]))"
proof -
  assume a: "getAIResponse cfg net m userMessage = (m', reqs, r)"
  let ?m1 = "addToHistory m ''user'' (JStr userMessage)"
  have d: "(reqs, r) = dispatch cfg net ?m1 userMessage"
    using a by (auto simp: getAIResponse_def Let_def split: prod.splits sum.splits)
  have f: "m' = ?m1" if "r = Inl e" for e
    using a that by (auto simp: getAIResponse_def Let_def split: prod.splits sum.splits)
  have s: "m' = addToHistory ?m1 ''assistant'' response" if "r = Inr response" for response
    using a that by (auto simp: getAIResponse_def Let_def split: prod.splits sum.splits)
  have two: "conversationHistory (addToHistory ?m1 ''assistant'' response) =
      [\<lparr> role = ''user'', content = JStr userMessage \<rparr>, \<lparr> role = ''assistant'', content = response \<rparr>]"
    if "conversationHistory m = []" "2 \<le> maxHistoryLength m" for response
    using that by (simp add: addToHistory_def)
  show ?thesis
    using d f s two addToHistory_last [of m "''user''" "JStr userMessage"] by auto
qed

lemmas provider_eval =
  getAIResponse_def dispatch_def callOpenAI_def callMistral_def callGemini_def
  call_chat_completions_def example_config_def AI_CONFIG_def net_reply_def net_down_def chat_reply_def
  new_manager_def addToHistory_def slice_neg_def getConversationContext_def chat_request_def
  response_json_def choices_content_def candidates_text_def bindE_def nullish_def js_or_def
  gemini_request_def Let_def

lemma example_success:
  "getAIResponse example_config (net_reply (chat_reply ''Hi there'')) new_manager ''Hello'' =
     (new_manager \<lparr> conversationHistory :=
         [\<lparr> role = ''user'', content = JStr ''Hello'' \<rparr>,
          \<lparr> role = ''assistant'', content = JStr ''Hi there'' \<rparr>] \<rparr>,
      [chat_request (openai example_config)
         [\<lparr> role = ''system'', content = JStr system_instruction \<rparr>,
          \<lparr> role = ''user'', content = JStr ''Hello'' \<rparr>]],
      Inr (JStr ''Hi there''))"
  by (simp add: provider_eval)

lemma example_failure:
  "getAIResponse example_config net_down new_manager ''Hello'' =
     (new_manager \<lparr> conversationHistory := [\<lparr> role = ''user'', content = JStr ''Hello'' \<rparr>] \<rparr>,
      [chat_request (openai example_config)
         [\<lparr> role = ''system'', content = JStr system_instruction \<rparr>,
          \<lparr> role = ''user'', content = JStr ''Hello'' \<rparr>]],
      Inl (TypeError ''Failed to fetch''))"
  by (simp add: provider_eval)

text \<open>
  The scenario of C5: the default manager, OpenAI configured, input \<open>Hello\<close>. With a
  reply the history has the two turns; with the network down it has the user turn only
  and the error of \<open>fetch\<close> comes back.
\<close>

theorem getAIResponse_turns_witness:
  "conversationHistory new_manager = [] \<and> 2 \<le> maxHistoryLength new_manager
   \<and> conversationHistory
       (fst (getAIResponse example_config (net_reply (chat_reply ''Hi there'')) new_manager ''Hello''))
     = [\<lparr> role = ''user'', content = JStr ''Hello'' \<rparr>, \<lparr> role = ''assistant'', content = JStr ''Hi there'' \<rparr>]
   \<and> fst (getAIResponse example_config net_down new_manager ''Hello'')
     = addToHistory new_manager ''user'' (JStr ''Hello'')
   \<and> snd (snd (getAIResponse example_config net_down new_manager ''Hello'')) = Inl (TypeError ''Failed to fetch'')"
proof -
  let ?ok = "getAIResponse example_config (net_reply (chat_reply ''Hi there'')) new_manager ''Hello''"
  let ?bad = "getAIResponse example_config net_down new_manager ''Hello''"
  have h: "conversationHistory new_manager = [] \<and> 2 \<le> maxHistoryLength new_manager"
    by (simp add: new_manager_def)
  have r_ok: "snd (snd ?ok) = Inr (JStr ''Hi there'')" by (simp add: example_success)
  have r_bad: "snd (snd ?bad) = Inl (TypeError ''Failed to fetch'')" by (simp add: example_failure)
  have "?ok = (fst ?ok, fst (snd ?ok), snd (snd ?ok))" by simp
  from getAIResponse_turns [OF this] r_ok h
  have ok: "conversationHistory (fst ?ok) =
      [\<lparr> role = ''user'', content = JStr ''Hello'' \<rparr>, \<lparr> role = ''assistant'', content = JStr ''Hi there'' \<rparr>]"
    by blast
  have "?bad = (fst ?bad, fst (snd ?bad), snd (snd ?bad))" by simp
  from getAIResponse_turns [OF this] r_bad
  have bad: "fst ?bad = addToHistory new_manager ''user'' (JStr ''Hello'')"
    by blast
  show ?thesis
    using h ok bad r_bad by blast
qed

text \<open>
  C10. \<open>testConnection\<close> with one of the three provider names makes that provider the
  current one and leaves it so, whatever the network answers and whatever was current
  before.
\<close>

theorem testConnection_switches_provider:
  "p \<in> set [''openai'', ''mistral'', ''gemini''] \<Longrightarrow>
   currentProvider (fst (testConnection cfg net m (Some p))) = p"
  by (auto simp: testConnection_def Let_def setProvider_def getAIResponse_def addToHistory_frame
      split: prod.splits sum.splits)

theorem testConnection_switches_provider_witness:
  "''gemini'' \<in> set [''openai'', ''mistral'', ''gemini'']
   \<and> currentProvider new_manager = ''openai''
   \<and> currentProvider (fst (testConnection example_config net_down new_manager (Some ''gemini''))) = ''gemini''
   \<and> currentProvider
       (fst (testConnection example_config (net_reply (chat_reply ''Hi'')) new_manager (Some ''gemini'')))
     = ''gemini''"
proof -
  have p: "''gemini'' \<in> set [''openai'', ''mistral'', ''gemini'']" by simp
  show ?thesis
    using p testConnection_switches_provider [OF p, of example_config net_down new_manager]
      testConnection_switches_provider [OF p, of example_config "net_reply (chat_reply ''Hi'')" new_manager]
    by (simp add: new_manager_def)
qed

lemma translate_chat_sends:
  "apiKey config \<noteq> [] \<Longrightarrow>
   \<exists>req. fst (translate_chat label config net systemPrompt text) = [req]
     \<and> req_max_tokens req = min 1000 (maxTokens config) \<and> req_temperature req = 0.2"
  by (auto simp: translate_chat_def Let_def req_max_tokens_def req_temperature_def
      split: fetch_result.splits)

lemma translate_gemini_sends:
  "apiKey config \<noteq> [] \<Longrightarrow>
   \<exists>req. fst (translate_gemini config net systemPrompt text) = [req]
     \<and> req_max_tokens req = min 1000 (maxTokens config) \<and> req_temperature req = 0.2"
  by (auto simp: translate_gemini_def Let_def req_max_tokens_def req_temperature_def gemini_request_def
      split: fetch_result.splits)

lemma translateText_sends:
  assumes "config_of cfg (currentProvider m) = Some config" and "apiKey config \<noteq> []"
  shows "\<exists>req. fst (translateText cfg net m text sourceLang targetLang) = [req]
     \<and> req_max_tokens req = min 1000 (maxTokens config) \<and> req_temperature req = 0.2"
proof -
  consider (o) "currentProvider m = ''openai''" "config = openai cfg"
    | (mi) "currentProvider m = ''mistral''" "config = mistral cfg"
    | (g) "currentProvider m = ''gemini''" "config = gemini cfg"
    using assms(1) by (auto simp: config_of_def split: if_splits)
  then show ?thesis
  proof cases
    case o
    then show ?thesis
      using translate_chat_sends [OF assms(2), of "''OpenAI''" net] by (simp add: translateText_def Let_def)
  next
    case mi
    then show ?thesis
      using translate_chat_sends [OF assms(2), of "''Mistral''" net] by (simp add: translateText_def Let_def)
  next
    case g
    then show ?thesis
      using translate_gemini_sends [OF assms(2), of net] by (simp add: translateText_def Let_def)
  qed
qed

lemma translateText_members:
  "r \<in> set (fst (translateText cfg net m text sourceLang targetLang)) \<Longrightarrow>
   \<exists>config. config_of cfg (currentProvider m) = Some config
     \<and> req_max_tokens r = min 1000 (maxTokens config) \<and> req_temperature r = 0.2"
  by (auto simp: translateText_def translate_chat_def translate_gemini_def Let_def config_of_def
       req_max_tokens_def req_temperature_def gemini_request_def
      split: fetch_result.splits if_splits)

text \<open>
  C8. Whichever of the three providers is current, \<open>translateText\<close> with a key for
  it sends exactly one request, and that request carries \<open>min 1000 maxTokens\<close> of the
  provider's configuration as its token limit and the temperature 0.2; the configured
  temperature is not used. No other request is ever sent by it: every request it sends
  has these two fields.
\<close>

theorem translateText_limits:
  "(config_of cfg (currentProvider m) = Some config \<and> apiKey config \<noteq> [] \<longrightarrow>
      (\<exists>req. fst (translateText cfg net m text sourceLang targetLang) = [req]
         \<and> req_max_tokens req = min 1000 (maxTokens config) \<and> req_temperature req = 0.2))
   \<and> (r \<in> set (fst (translateText cfg net m text sourceLang targetLang)) \<longrightarrow>
      (\<exists>config. config_of cfg (currentProvider m) = Some config
         \<and> req_max_tokens r = min 1000 (maxTokens config) \<and> req_temperature r = 0.2))"
  using translateText_sends translateText_members by blast

text \<open>
  Each provider in turn, with token limits 4096, 1000 and 512 and the temperature 0.7
  configured: the one request asks for 1000, 1000 and 512 tokens, at 0.2.
\<close>

theorem translateText_limits_witness:
  "temperature (openai translation_config) = 0.7 \<and> temperature (mistral translation_config) = 0.7
   \<and> temperature (gemini translation_config) = 0.7
   \<and> map (\<lambda>r. (req_max_tokens r, req_temperature r))
       (fst (translateText translation_config net_down (new_manager \<lparr> currentProvider := ''openai'' \<rparr>)
          ''Bonjour'' ''auto'' ''English'')) = [(1000, 0.2)]
   \<and> map (\<lambda>r. (req_max_tokens r, req_temperature r))
       (fst (translateText translation_config net_down (new_manager \<lparr> currentProvider := ''mistral'' \<rparr>)
          ''Bonjour'' ''auto'' ''English'')) = [(1000, 0.2)]
   \<and> map (\<lambda>r. (req_max_tokens r, req_temperature r))
       (fst (translateText translation_config net_down (new_manager \<lparr> currentProvider := ''gemini'' \<rparr>)
          ''Bonjour'' ''auto'' ''English'')) = [(512, 0.2)]"
proof -
  have fields: "map (\<lambda>r. (req_max_tokens r, req_temperature r))
       (fst (translateText translation_config net_down (new_manager \<lparr> currentProvider := p \<rparr>)
          ''Bonjour'' ''auto'' ''English'')) = [(min 1000 (maxTokens config), 0.2)]"
    if "config_of translation_config p = Some config" "apiKey config \<noteq> []" for p config
  proof -
    have "config_of translation_config (currentProvider (new_manager \<lparr> currentProvider := p \<rparr>)) = Some config
        \<and> apiKey config \<noteq> []"
      using that by simp
    with translateText_limits [of translation_config "new_manager \<lparr> currentProvider := p \<rparr>" config
        net_down "''Bonjour''" "''auto''" "''English''"]
    obtain req where "fst (translateText translation_config net_down (new_manager \<lparr> currentProvider := p \<rparr>)
          ''Bonjour'' ''auto'' ''English'') = [req]"
      "req_max_tokens req = min 1000 (maxTokens config)" "req_temperature req = 0.2"
      by blast
    then show ?thesis by simp
  qed
  have o: "config_of translation_config ''openai'' = Some (openai translation_config)"
    and mi: "config_of translation_config ''mistral'' = Some (mistral translation_config)"
    and g: "config_of translation_config ''gemini'' = Some (gemini translation_config)"
    by (simp_all add: config_of_def)
  have keys: "apiKey (openai translation_config) \<noteq> []" "apiKey (mistral translation_config) \<noteq> []"
    "apiKey (gemini translation_config) \<noteq> []"
    by (simp_all add: translation_config_def AI_CONFIG_def)
  have vals: "maxTokens (openai translation_config) = 4096" "maxTokens (mistral translation_config) = 1000"
    "maxTokens (gemini translation_config) = 512"
    "temperature (openai translation_config) = 0.7" "temperature (mistral translation_config) = 0.7"
    "temperature (gemini translation_config) = 0.7"
    by (simp_all add: translation_config_def AI_CONFIG_def)
  show ?thesis
    using fields [OF o keys(1)] fields [OF mi keys(2)] fields [OF g keys(3)] vals by simp
qed

section \<open>Properties of \<open>sendMessage\<close>\<close>

text \<open>
  C6 as stated fails when nothing is sent: with an empty input box (or while a request
  is in flight) \<open>sendMessage\<close> returns at its first line, and an empty key produces no
  configuration message. Here the key of the current provider is empty and the chat
  container stays empty.
\<close>

theorem credential_gate_empty_input_counterexample:
  "apiKey (openai AI_CONFIG) = []
   \<and> sendMessage AI_CONFIG net_down (fresh_interface []) = (fresh_interface [], [], None)
   \<and> chatContainer (fst (sendMessage AI_CONFIG net_down (fresh_interface []))) = []"
  by (simp add: sendMessage_def fresh_interface_def AI_CONFIG_def trim_def)

lemma call_chat_completions_request:
  "apiKey config \<noteq> [] \<Longrightarrow>
   \<exists>req. fst (call_chat_completions label config net m) = [req]
     \<and> url req = endpoint config \<and> authorization req = Some (''Bearer '' @ apiKey config)"
  by (auto simp: call_chat_completions_def chat_request_def Let_def split: fetch_result.splits)

lemma callGemini_request:
  "apiKey (gemini cfg) \<noteq> [] \<Longrightarrow>
   \<exists>req. fst (callGemini cfg net m u) = [req]
     \<and> url req = endpoint (gemini cfg) @ ''?key='' @ apiKey (gemini cfg) \<and> authorization req = None"
  by (auto simp: callGemini_def gemini_request_def Let_def split: fetch_result.splits)

lemma dispatch_request:
  assumes "config_of cfg (currentProvider m) = Some config" and "apiKey config \<noteq> []"
  shows "\<exists>req. fst (dispatch cfg net m u) = [req]
     \<and> url req = provider_url (currentProvider m) config
     \<and> authorization req = provider_authorization (currentProvider m) config"
proof -
  consider (o) "currentProvider m = ''openai''" "config = openai cfg"
    | (mi) "currentProvider m = ''mistral''" "config = mistral cfg"
    | (g) "currentProvider m = ''gemini''" "config = gemini cfg"
    using assms(1) by (auto simp: config_of_def split: if_splits)
  then show ?thesis
  proof cases
    case o
    then show ?thesis
      using call_chat_completions_request [OF assms(2), of "''OpenAI''" net m]
      by (simp add: dispatch_def callOpenAI_def provider_url_def provider_authorization_def)
  next
    case mi
    then show ?thesis
      using call_chat_completions_request [OF assms(2), of "''Mistral''" net m]
      by (simp add: dispatch_def callMistral_def provider_url_def provider_authorization_def)
  next
    case g
    then show ?thesis
      using callGemini_request [of cfg net m u] assms(2)
      by (simp add: dispatch_def provider_url_def provider_authorization_def)
  qed
qed

lemma sendMessage_guard:
  "trim (messageInput ui) = [] \<or> isProcessing ui \<Longrightarrow> sendMessage cfg net ui = (ui, [], None)"
  by (auto simp: sendMessage_def Let_def)

lemma sendMessage_no_key:
  assumes "trim (messageInput ui) \<noteq> []" and "\<not> isProcessing ui"
    and "config_of cfg (currentProvider (aiManager ui)) = Some config"
    and "trim (apiKey config) = []"
  shows "sendMessage cfg net ui =
      (addSystemMessage ui (configure_key_message (currentProvider (aiManager ui))), [], None)"
  using assms by (simp add: sendMessage_def getCurrentProvider_def Let_def)

lemma sendMessage_with_key:
  assumes "trim (messageInput ui) \<noteq> []" and "\<not> isProcessing ui"
    and "config_of cfg (currentProvider (aiManager ui)) = Some config"
    and "trim (apiKey config) \<noteq> []"
  shows "\<exists>req. fst (snd (sendMessage cfg net ui)) = [req]
     \<and> url req = provider_url (currentProvider (aiManager ui)) config
     \<and> authorization req = provider_authorization (currentProvider (aiManager ui)) config"
proof -
  from assms(4) have k: "apiKey config \<noteq> []" by (rule trim_nonempty)
  let ?msg = "trim (messageInput ui)"
  let ?m1 = "addToHistory (aiManager ui) ''user'' (JStr ?msg)"
  obtain m' reqs r where g: "getAIResponse cfg net (aiManager ui) ?msg = (m', reqs, r)"
    by (metis prod_cases3)
  have c: "config_of cfg (currentProvider ?m1) = Some config"
    using assms(3) by (simp add: addToHistory_frame)
  from dispatch_request [OF c k, of net ?msg]
  obtain req where d: "fst (dispatch cfg net ?m1 ?msg) = [req]"
    and u: "url req = provider_url (currentProvider (aiManager ui)) config"
    and au: "authorization req = provider_authorization (currentProvider (aiManager ui)) config"
    by (auto simp: addToHistory_frame)
  have "fst (snd (getAIResponse cfg net (aiManager ui) ?msg)) = [req]"
    using d by (simp add: getAIResponse_requests)
  then have reqs: "reqs = [req]" by (simp add: g)
  have "fst (snd (sendMessage cfg net ui)) = reqs"
    using assms k g
    by (simp add: sendMessage_def getCurrentProvider_def Let_def addMessage_def)
  then show ?thesis using reqs u au by blast
qed

text \<open>
  C6, as amended. With a blank input, or while a request is in flight, \<open>sendMessage\<close>
  returns at once: nothing is shown, nothing is sent, nothing changes. For a message
  that is not blank, with no request in flight and a current provider configured in
  \<open>AI_CONFIG\<close>: if the provider's key is blank after trimming, \<open>sendMessage\<close> only adds
  the configuration message to the chat, sends no request and leaves the service
  manager, and so the conversation history, as it was; if the key is not blank, exactly
  one request is sent, to the endpoint of the current provider with that provider's key.
\<close>

theorem credential_gate:
  "(trim (messageInput ui) = [] \<or> isProcessing ui \<longrightarrow> sendMessage cfg net ui = (ui, [], None))
   \<and> (trim (messageInput ui) \<noteq> [] \<and> \<not> isProcessing ui
        \<and> config_of cfg (currentProvider (aiManager ui)) = Some config \<and> trim (apiKey config) = [] \<longrightarrow>
          sendMessage cfg net ui =
            (addSystemMessage ui (configure_key_message (currentProvider (aiManager ui))), [], None)
        \<and> aiManager (fst (sendMessage cfg net ui)) = aiManager ui)
   \<and> (trim (messageInput ui) \<noteq> [] \<and> \<not> isProcessing ui
        \<and> config_of cfg (currentProvider (aiManager ui)) = Some config \<and> trim (apiKey config) \<noteq> [] \<longrightarrow>
          (\<exists>req. fst (snd (sendMessage cfg net ui)) = [req]
             \<and> url req = provider_url (currentProvider (aiManager ui)) config
             \<and> authorization req = provider_authorization (currentProvider (aiManager ui)) config))"
proof (intro conjI impI)
  assume "trim (messageInput ui) = [] \<or> isProcessing ui"
  then show "sendMessage cfg net ui = (ui, [], None)" by (rule sendMessage_guard)
next
  assume a: "trim (messageInput ui) \<noteq> [] \<and> \<not> isProcessing ui
      \<and> config_of cfg (currentProvider (aiManager ui)) = Some config \<and> trim (apiKey config) = []"
  then show g: "sendMessage cfg net ui =
      (addSystemMessage ui (configure_key_message (currentProvider (aiManager ui))), [], None)"
    using sendMessage_no_key by blast
  show "aiManager (fst (sendMessage cfg net ui)) = aiManager ui"
    by (simp add: g addSystemMessage_def)
next
  assume "trim (messageInput ui) \<noteq> [] \<and> \<not> isProcessing ui
      \<and> config_of cfg (currentProvider (aiManager ui)) = Some config \<and> trim (apiKey config) \<noteq> []"
  then show "\<exists>req. fst (snd (sendMessage cfg net ui)) = [req]
      \<and> url req = provider_url (currentProvider (aiManager ui)) config
      \<and> authorization req = provider_authorization (currentProvider (aiManager ui)) config"
    using sendMessage_with_key by blast
qed

lemma trim_Hello: "trim ''Hello'' = ''Hello''"
  by (simp add: trim_def js_whitespace_def)

lemma trim_example_key: "trim ''sk-example'' = ''sk-example''"
  by (simp add: trim_def js_whitespace_def)

lemma trim_spaces: "trim ''   '' = []"
  by (simp add: trim_def js_whitespace_def)

text \<open>
  The default manager. A box of three spaces, and the input \<open>Hello\<close> while a request is
  in flight, change nothing. The input \<open>Hello\<close> with the shipped configuration (no keys)
  brings the configuration message, sends nothing and leaves the history empty; with a
  key for OpenAI one request goes to the OpenAI endpoint with that key.
\<close>

theorem credential_gate_witness:
  "trim (messageInput (fresh_interface ''   '')) = []
   \<and> sendMessage AI_CONFIG net_down (fresh_interface ''   '') = (fresh_interface ''   '', [], None)
   \<and> isProcessing ((fresh_interface ''Hello'') \<lparr> isProcessing := True \<rparr>)
   \<and> sendMessage example_config net_down ((fresh_interface ''Hello'') \<lparr> isProcessing := True \<rparr>)
       = ((fresh_interface ''Hello'') \<lparr> isProcessing := True \<rparr>, [], None)
   \<and> trim (messageInput (fresh_interface ''Hello'')) \<noteq> [] \<and> \<not> isProcessing (fresh_interface ''Hello'')
   \<and> trim (apiKey (openai AI_CONFIG)) = [] \<and> trim (apiKey (openai example_config)) \<noteq> []
   \<and> sendMessage AI_CONFIG net_down (fresh_interface ''Hello'') =
       (addSystemMessage (fresh_interface ''Hello'') (configure_key_message ''openai''), [], None)
   \<and> conversationHistory (aiManager (fst (sendMessage AI_CONFIG net_down (fresh_interface ''Hello'')))) = []
   \<and> (\<exists>req. fst (snd (sendMessage example_config net_down (fresh_interface ''Hello''))) = [req]
        \<and> url req = ''https://api.openai.com/v1/chat/completions''
        \<and> authorization req = Some ''Bearer sk-example'')"
proof -
  let ?ui = "fresh_interface ''Hello''"
  let ?blank = "fresh_interface ''   ''"
  let ?busy = "(fresh_interface ''Hello'') \<lparr> isProcessing := True \<rparr>"
  have bl: "trim (messageInput ?blank) = []" by (simp add: fresh_interface_def trim_spaces)
  have bu: "isProcessing ?busy" by simp
  have g_blank: "sendMessage AI_CONFIG net_down ?blank = (?blank, [], None)"
    using credential_gate [of ?blank AI_CONFIG net_down] bl by blast
  have g_busy: "sendMessage example_config net_down ?busy = (?busy, [], None)"
    using credential_gate [of ?busy example_config net_down] bu by blast
  have a: "trim (messageInput ?ui) \<noteq> []" by (simp add: fresh_interface_def trim_Hello)
  have b: "\<not> isProcessing ?ui" by (simp add: fresh_interface_def)
  have p: "currentProvider (aiManager ?ui) = ''openai''" by (simp add: fresh_interface_def new_manager_def)
  have c0: "config_of AI_CONFIG (currentProvider (aiManager ?ui)) = Some (openai AI_CONFIG)"
    by (simp add: p config_of_def)
  have c1: "config_of example_config (currentProvider (aiManager ?ui)) = Some (openai example_config)"
    by (simp add: p config_of_def)
  have k0: "trim (apiKey (openai AI_CONFIG)) = []" by (simp add: AI_CONFIG_def trim_Nil)
  have k1: "trim (apiKey (openai example_config)) \<noteq> []"
    by (simp add: example_config_def AI_CONFIG_def trim_example_key)
  have h: "conversationHistory (aiManager ?ui) = []" by (simp add: fresh_interface_def new_manager_def)
  have g0: "sendMessage AI_CONFIG net_down ?ui = (addSystemMessage ?ui (configure_key_message ''openai''), [], None)"
    and g0': "aiManager (fst (sendMessage AI_CONFIG net_down ?ui)) = aiManager ?ui"
    using credential_gate [of ?ui AI_CONFIG net_down "openai AI_CONFIG"] a b c0 k0 unfolding p by blast+
  have u: "provider_url ''openai'' (openai example_config) = ''https://api.openai.com/v1/chat/completions''"
    and au: "provider_authorization ''openai'' (openai example_config) = Some ''Bearer sk-example''"
    by (simp_all add: provider_url_def provider_authorization_def example_config_def AI_CONFIG_def)
  have g1: "\<exists>req. fst (snd (sendMessage example_config net_down ?ui)) = [req]
      \<and> url req = ''https://api.openai.com/v1/chat/completions''
      \<and> authorization req = Some ''Bearer sk-example''"
    using credential_gate [of ?ui example_config net_down "openai example_config"] a b c1 k1
    unfolding p u au by blast
  have h': "conversationHistory (aiManager (fst (sendMessage AI_CONFIG net_down ?ui))) = []"
    using g0' h by simp
  show ?thesis
    using bl bu g_blank g_busy a b k0 k1 g0 g1 h' by blast
qed

section \<open>Replies without a usable field\<close>

text \<open>
  Once \<open>choices\<close> is there, reading the reply cannot throw: whatever its first element
  holds, the chain ends in a value, and a falsy one is replaced by the placeholder.
\<close>

lemma choices_content_total:
  "js_get data ''choices'' = Inr c \<Longrightarrow> \<not> nullish c \<Longrightarrow> \<exists>v. choices_content data = Inr v"
proof -
  assume g: "js_get data ''choices'' = Inr c" and n: "\<not> nullish c"
  obtain c0 where c0: "js_index0 c = Inr c0"
    using n by (cases c) (auto simp: nullish_def)
  have get: "\<exists>v. js_get x k = Inr v" if "\<not> nullish x" for x k
    using that by (cases x) (auto simp: nullish_def)
  show ?thesis
  proof (cases "nullish c0")
    case True
    then show ?thesis using g c0 by (simp add: choices_content_def bindE_def)
  next
    case False
    then obtain msg where msg: "js_get c0 ''message'' = Inr msg" using get by blast
    show ?thesis
    proof (cases "nullish msg")
      case True
      then show ?thesis using g c0 False msg by (simp add: choices_content_def bindE_def)
    next
      case False
      then obtain v where "js_get msg ''content'' = Inr v" using get by blast
      then show ?thesis using g c0 \<open>\<not> nullish c0\<close> msg False by (simp add: choices_content_def bindE_def)
    qed
  qed
qed

lemma example_empty_choices:
  "snd (callOpenAI example_config (net_reply (JObj [(''choices'', JArr [])])) new_manager ''Hello'')
   = Inr (JStr ''No response from OpenAI'')"
  by (simp add: provider_eval)

text \<open>
  C7. A reply with status 200 whose body is \<open>{}\<close> has no \<open>choices\<close>, and
  \<open>data.choices[0]\<close> throws a \<open>TypeError\<close>: \<open>callOpenAI\<close> returns no placeholder,
  \<open>getAIResponse\<close> fails and the history has the user turn only. The same happens in
  \<open>callGemini\<close> for a body without \<open>candidates\<close>.
\<close>

theorem no_reply_field_throws:
  "snd (callOpenAI example_config (net_reply (JObj [])) new_manager ''Hello'')
     = Inl (TypeError ''Cannot read properties of undefined (reading '0')'')
   \<and> snd (callGemini example_config
        (net_reply (JObj [(''promptFeedback'', JObj [(''blockReason'', JStr ''SAFETY'')])])) new_manager ''Hello'')
     = Inl (TypeError ''Cannot read properties of undefined (reading '0')'')
   \<and> getAIResponse example_config (net_reply (JObj [])) new_manager ''Hello''
     = (new_manager \<lparr> conversationHistory := [\<lparr> role = ''user'', content = JStr ''Hello'' \<rparr>] \<rparr>,
        [chat_request (openai example_config)
           [\<lparr> role = ''system'', content = JStr system_instruction \<rparr>,
            \<lparr> role = ''user'', content = JStr ''Hello'' \<rparr>]],
        Inl (TypeError ''Cannot read properties of undefined (reading '0')''))"
  by (simp add: provider_eval)

section \<open>Properties of the sanitizer\<close>

lemma of_char_add32: "n \<le> 222 \<Longrightarrow> (of_char (char_of (n + 32 :: nat)) :: nat) = n + 32"
  by simp

lemma to_lower_char_idem: "to_lower_char (to_lower_char c) = to_lower_char c"
  unfolding to_lower_char_def Let_def
  by (auto simp: of_char_add32)

lemma ascii_lower_to_lower: "ascii_lower_char (to_lower_char c) = to_lower_char c"
  unfolding to_lower_char_def ascii_lower_char_def Let_def
  by (auto simp: of_char_add32)

lemma lower_upper_lower: "to_lower_char (ascii_upper_char (to_lower_char c)) = to_lower_char c"
proof -
  define n where "n = (of_char c :: nat)"
  have c: "c = char_of n" by (simp add: n_def)
  have n: "n < 256" by (simp add: n_def)
  consider (up) "65 \<le> n \<and> n \<le> 90" | (hi) "192 \<le> n \<and> n \<le> 222 \<and> n \<noteq> 215"
    | (lo) "97 \<le> n \<and> n \<le> 122" | (other) "\<not> (65 \<le> n \<and> n \<le> 90) \<and> \<not> (192 \<le> n \<and> n \<le> 222 \<and> n \<noteq> 215) \<and> \<not> (97 \<le> n \<and> n \<le> 122)"
    by blast
  then show ?thesis
  proof cases
    case up
    then have l: "to_lower_char c = char_of (n + 32)" by (simp add: to_lower_char_def n_def Let_def)
    have "(of_char (char_of (n + 32)) :: nat) = n + 32" using up by (simp add: of_char_add32)
    then have u: "ascii_upper_char (char_of (n + 32)) = char_of n"
      using up by (simp add: ascii_upper_char_def Let_def)
    have "to_lower_char (char_of n) = char_of (n + 32)" using l c by simp
    then show ?thesis using l u by simp
  next
    case hi
    then have l: "to_lower_char c = char_of (n + 32)" by (auto simp: to_lower_char_def n_def Let_def)
    have o: "(of_char (char_of (n + 32)) :: nat) = n + 32" using hi by (simp add: of_char_add32)
    have u: "ascii_upper_char (char_of (n + 32)) = char_of (n + 32)"
      using hi o by (simp add: ascii_upper_char_def Let_def)
    have "to_lower_char (char_of (n + 32)) = char_of (n + 32)"
      using hi o by (simp add: to_lower_char_def Let_def)
    then show ?thesis using l u by simp
  next
    case lo
    then have l: "to_lower_char c = c" by (simp add: to_lower_char_def n_def Let_def)
    have u: "ascii_upper_char c = char_of (n - 32)" using lo by (simp add: ascii_upper_char_def n_def Let_def)
    have "n - 32 < 256" using lo by arith
    then have o: "(of_char (char_of (n - 32)) :: nat) = n - 32" by simp
    have r: "65 \<le> n - 32 \<and> n - 32 \<le> 90" using lo by arith
    have "to_lower_char (char_of (n - 32)) = char_of (n - 32 + 32)"
      using r by (simp only: to_lower_char_def Let_def o) simp
    moreover have "n - 32 + 32 = n" using lo by simp
    ultimately show ?thesis using l u c by simp
  next
    case other
    then have l: "to_lower_char c = c" by (auto simp: to_lower_char_def n_def Let_def)
    have u: "ascii_upper_char c = c" using other by (auto simp: ascii_upper_char_def n_def Let_def)
    show ?thesis using l u by simp
  qed
qed

lemma toLowerCase_idem: "toLowerCase (toLowerCase s) = toLowerCase s"
  by (simp add: toLowerCase_def to_lower_char_idem)

lemma ascii_lower_toLowerCase: "map ascii_lower_char (toLowerCase s) = toLowerCase s"
  by (simp add: toLowerCase_def ascii_lower_to_lower)

lemma toLowerCase_tagName: "toLowerCase (tagName (toLowerCase s)) = toLowerCase s"
  by (simp add: toLowerCase_def tagName_def lower_upper_lower)

subsection \<open>Attributes\<close>

lemma setAttribute_fresh: "a \<notin> fst ` set new \<Longrightarrow> setAttribute new a v = new @ [(a, v)]"
  by (induction new) auto

lemma setAttribute_names: "fst ` set (setAttribute new a v) = insert a (fst ` set new)"
proof (induction new)
  case Nil
  then show ?case by simp
next
  case (Cons x new)
  obtain b w where x: "x = (b, w)" by (cases x)
  show ?case
  proof (cases "b = a")
    case True
    then show ?thesis using x by simp
  next
    case False
    then show ?thesis using x Cons.IH by (simp add: insert_commute)
  qed
qed

lemma copyAttributes_filter:
  "distinct (map (toLowerCase \<circ> fst) attrs) \<Longrightarrow>
   (toLowerCase \<circ> fst) ` set attrs \<inter> fst ` set new = {} \<Longrightarrow>
   copyAttributes (Own names) attrs new = Inr (new @ filter (admitted names) (map lower_name attrs))"
proof (induction attrs arbitrary: new)
  case Nil
  then show ?case by simp
next
  case (Cons x attrs)
  obtain n v where x: "x = (n, v)" by (cases x)
  show ?case
  proof (cases "toLowerCase n \<in> set names \<and> attribute_ok (toLowerCase n) v")
    case True
    have fresh: "toLowerCase n \<notin> fst ` set new" using Cons.prems(2) x by auto
    have d: "distinct (map (toLowerCase \<circ> fst) attrs)" using Cons.prems(1) by (simp add: comp_def)
    have disj: "(toLowerCase \<circ> fst) ` set attrs \<inter> fst ` set (setAttribute new (toLowerCase n) v) = {}"
      using Cons.prems x by (auto simp: setAttribute_names)
    show ?thesis
      using True x Cons.IH [OF d disj] fresh
      by (simp add: Let_def setAttribute_fresh admitted_def lower_name_def)
  next
    case False
    have d: "distinct (map (toLowerCase \<circ> fst) attrs)" using Cons.prems(1) by (simp add: comp_def)
    have disj: "(toLowerCase \<circ> fst) ` set attrs \<inter> fst ` set new = {}"
      using Cons.prems(2) by auto
    show ?thesis
      using False x Cons.IH [OF d disj]
      by (auto simp: Let_def admitted_def lower_name_def)
  qed
qed

lemma setAttribute_set: "set (setAttribute new a v) \<subseteq> insert (a, v) (set new)"
proof (induction new)
  case Nil
  then show ?case by simp
next
  case (Cons x new)
  obtain b w where x: "x = (b, w)" by (cases x)
  show ?case
  proof (cases "b = a")
    case True
    then show ?thesis using x by auto
  next
    case False
    then show ?thesis using x Cons.IH by auto
  qed
qed

lemma setAttribute_distinct: "distinct (map fst new) \<Longrightarrow> distinct (map fst (setAttribute new a v))"
proof (induction new)
  case Nil
  then show ?case by simp
next
  case (Cons x new)
  obtain b w where x: "x = (b, w)" by (cases x)
  show ?case
  proof (cases "b = a")
    case True
    then show ?thesis using Cons.prems x by simp
  next
    case False
    have "b \<notin> fst ` set (setAttribute new a v)"
      using False Cons.prems x by (auto simp: setAttribute_names)
    then show ?thesis using False Cons x by simp
  qed
qed

lemma settled_setAttribute:
  "settled names new \<Longrightarrow> a \<in> set names \<Longrightarrow> attribute_ok a v \<Longrightarrow> toLowerCase a = a \<Longrightarrow>
   settled names (setAttribute new a v)"
  unfolding settled_def list_all_iff
  using setAttribute_set [of new a v] by (auto simp: setAttribute_distinct)

lemma copyAttributes_settled:
  "copyAttributes (Own names) attrs new = Inr r \<Longrightarrow> settled names new \<Longrightarrow> settled names r"
proof (induction attrs arbitrary: new)
  case Nil
  then show ?case by simp
next
  case (Cons x attrs)
  obtain n v where x: "x = (n, v)" by (cases x)
  show ?case
  proof (cases "toLowerCase n \<in> set names \<and> attribute_ok (toLowerCase n) v")
    case True
    then have "settled names (setAttribute new (toLowerCase n) v)"
      using Cons.prems(2) by (simp add: settled_setAttribute toLowerCase_idem)
    moreover have "copyAttributes (Own names) attrs (setAttribute new (toLowerCase n) v) = Inr r"
      using Cons.prems(1) True x by (simp add: Let_def)
    ultimately show ?thesis by (rule Cons.IH [rotated])
  next
    case False
    then have "copyAttributes (Own names) attrs new = Inr r"
      using Cons.prems(1) x by (auto simp: Let_def)
    then show ?thesis using Cons.prems(2) by (rule Cons.IH)
  qed
qed

lemma copyAttributes_again:
  assumes "settled names r"
  shows "copyAttributes (Own names) r [] = Inr r"
proof -
  have low: "map lower_name r = r"
    using assms by (auto simp: settled_def list_all_iff lower_name_def intro!: map_idI)
  have d: "distinct (map (toLowerCase \<circ> fst) r)"
  proof -
    have "map (toLowerCase \<circ> fst) r = map fst r"
      using assms by (auto simp: settled_def list_all_iff)
    then show ?thesis using assms by (simp only: settled_def)
  qed
  have "filter (admitted names) r = r"
    using assms by (auto simp: settled_def list_all_iff admitted_def intro!: filter_True)
  then show ?thesis
    using copyAttributes_filter [OF d, of "[]" names] low by simp
qed

lemma copyAttributes_Inherited:
  "copyAttributes Inherited attrs new = Inr r \<Longrightarrow> attrs = [] \<and> r = new"
  by (cases attrs) (auto simp: Let_def)

subsection \<open>Idempotence on trees\<close>

lemma sanitize_again:
  "(\<forall>m. sanitizeNode n = Inr (Some m) \<longrightarrow> sanitizeNode m = Inr (Some m))"
  "(\<forall>out. sanitizeNodes ns = Inr out \<longrightarrow> sanitizeNodes out = Inr out)"
proof (induction n and ns rule: sanitizeNode_sanitizeNodes.induct)
  case (1 s)
  then show ?case by simp
next
  case (2 s)
  then show ?case by simp
next
  case (3 name attrs children)
  define t where "t = toLowerCase (tagName name)"
  show ?case
  proof (intro allI impI)
    fix m
    assume a: "sanitizeNode (Element name attrs children) = Inr (Some m)"
    show "sanitizeNode m = Inr (Some m)"
    proof (cases "allowedTags_get t")
      case Missing
      then have "m = Text (textContents children)" using a by (simp add: t_def Let_def)
      then show ?thesis by simp
    next
      case (Own names)
      from a Own obtain newAttrs newChildren where
        ca: "copyAttributes (Own names) attrs [] = Inr newAttrs" and
        sc: "sanitizeNodes children = Inr newChildren" and
        m: "m = Element (map ascii_lower_char t) newAttrs newChildren"
        by (auto simp: t_def [symmetric] Let_def bindE_def split: sum.splits)
      have name': "map ascii_lower_char t = t" by (simp add: t_def ascii_lower_toLowerCase)
      have t': "toLowerCase (tagName t) = t" by (simp add: t_def toLowerCase_tagName)
      have "settled names newAttrs"
        using ca by (rule copyAttributes_settled) (simp add: settled_def)
      then have ca': "copyAttributes (Own names) newAttrs [] = Inr newAttrs"
        by (rule copyAttributes_again)
      have sc': "sanitizeNodes newChildren = Inr newChildren"
        using 3 Own sc ca by (simp add: t_def)
      show ?thesis
        using Own ca' sc' by (simp add: m name' t' Let_def bindE_def)
    next
      case Inherited
      from a Inherited obtain newAttrs newChildren where
        ca: "copyAttributes Inherited attrs [] = Inr newAttrs" and
        sc: "sanitizeNodes children = Inr newChildren" and
        m: "m = Element (map ascii_lower_char t) newAttrs newChildren"
        by (auto simp: t_def [symmetric] Let_def bindE_def split: sum.splits)
      have name': "map ascii_lower_char t = t" by (simp add: t_def ascii_lower_toLowerCase)
      have t': "toLowerCase (tagName t) = t" by (simp add: t_def toLowerCase_tagName)
      have e: "newAttrs = []" using copyAttributes_Inherited [OF ca] by simp
      have sc': "sanitizeNodes newChildren = Inr newChildren"
        using 3 Inherited sc ca by (simp add: t_def)
      show ?thesis
        using Inherited sc' by (simp add: m e name' t' Let_def bindE_def)
    qed
  qed
next
  case 4
  then show ?case by simp
next
  case (5 child rest)
  show ?case
  proof (intro allI impI)
    fix out
    assume a: "sanitizeNodes (child # rest) = Inr out"
    then obtain sanitized others where
      c: "sanitizeNode child = Inr sanitized" and r: "sanitizeNodes rest = Inr others" and
      out: "out = (case sanitized of None \<Rightarrow> others | Some n \<Rightarrow> n # others)"
      by (auto simp: bindE_def split: sum.splits)
    have r': "sanitizeNodes others = Inr others" using 5(2) c r by simp
    show "sanitizeNodes out = Inr out"
    proof (cases sanitized)
      case None
      then show ?thesis using out r' by simp
    next
      case (Some n)
      then have "sanitizeNode n = Inr (Some n)" using 5(1) c by simp
      then show ?thesis using Some out r' by (simp add: bindE_def)
    qed
  qed
qed

subsection \<open>Flattening\<close>


lemma scenario_parses: "parse_fragment scenario_html = Some scenario_dom"
  by code_simp

text \<open>The scenario of the specification: the \<open>script\<close> element is flattened to its text.\<close>

lemma scenario_sanitized: "sanitizeHTML scenario_html = Some (Inr ''<p>Hi <b>there</b></p>bad()'')"
  by code_simp

text \<open>
  A lower-cased name has no letter A to Z, so of the properties of \<open>Object.prototype\<close>
  only \<open>constructor\<close> and \<open>__proto__\<close> can be read this way.
\<close>

lemma to_lower_char_not_upper:
  "\<not> (65 \<le> (of_char (to_lower_char c) :: nat) \<and> (of_char (to_lower_char c) :: nat) \<le> 90)"
  unfolding to_lower_char_def Let_def
  by (auto simp: of_char_add32)

lemma toLowerCase_no_upper:
  "toLowerCase s = t \<Longrightarrow> c \<in> set t \<Longrightarrow> \<not> (65 \<le> (of_char c :: nat) \<and> (of_char c :: nat) \<le> 90)"
  using to_lower_char_not_upper by (auto simp: toLowerCase_def)

lemma inherited_names:
  "allowedTags_get (toLowerCase s) = Inherited \<longleftrightarrow>
     toLowerCase s = ''constructor'' \<or> toLowerCase s = ''__proto__''"
proof
  assume "allowedTags_get (toLowerCase s) = Inherited"
  then have m: "toLowerCase s \<in> set object_prototype"
    by (auto simp: allowedTags_get_def split: option.splits if_splits)
  have no: "toLowerCase s \<noteq> t" if "c \<in> set t" "65 \<le> (of_char c :: nat) \<and> (of_char c :: nat) \<le> 90" for t c
    using toLowerCase_no_upper [of s t c] that by blast
  have "toLowerCase s \<noteq> ''hasOwnProperty''" by (rule no [of "CHR ''O''"]) simp_all
  moreover have "toLowerCase s \<noteq> ''isPrototypeOf''" by (rule no [of "CHR ''P''"]) simp_all
  moreover have "toLowerCase s \<noteq> ''propertyIsEnumerable''" by (rule no [of "CHR ''I''"]) simp_all
  moreover have "toLowerCase s \<noteq> ''toLocaleString''" by (rule no [of "CHR ''L''"]) simp_all
  moreover have "toLowerCase s \<noteq> ''toString''" by (rule no [of "CHR ''S''"]) simp_all
  moreover have "toLowerCase s \<noteq> ''valueOf''" by (rule no [of "CHR ''O''"]) simp_all
  moreover have "toLowerCase s \<noteq> ''__defineGetter__''" by (rule no [of "CHR ''G''"]) simp_all
  moreover have "toLowerCase s \<noteq> ''__defineSetter__''" by (rule no [of "CHR ''S''"]) simp_all
  moreover have "toLowerCase s \<noteq> ''__lookupGetter__''" by (rule no [of "CHR ''G''"]) simp_all
  moreover have "toLowerCase s \<noteq> ''__lookupSetter__''" by (rule no [of "CHR ''S''"]) simp_all
  ultimately show "toLowerCase s = ''constructor'' \<or> toLowerCase s = ''__proto__''"
    using m by (simp add: object_prototype_def)
next
  assume "toLowerCase s = ''constructor'' \<or> toLowerCase s = ''__proto__''"
  then show "allowedTags_get (toLowerCase s) = Inherited"
    by (auto simp: allowedTags_get_def allowedTags_def object_prototype_def)
qed

text \<open>With an attribute on such an element the attribute loop throws.\<close>

lemma constructor_with_attribute_throws:
  "sanitizeNodes [Element ''constructor'' [(''id'', ''a'')] [Text ''x'']]
   = Inl (TypeError ''allowedTags[tagName].includes is not a function'')"
  by code_simp

text \<open>
  C1. The tag \<open>constructor\<close> is not in the table, but \<open>allowedTags['constructor']\<close>
  is the inherited \<open>Object\<close> function, which is truthy: the element is not flattened.
  It is created anew and kept, with its children sanitized.
\<close>

theorem constructor_tag_kept:
  "map_of allowedTags ''constructor'' = None
   \<and> parse_fragment constructor_html = Some [Element ''constructor'' [] [Text ''x'']]
   \<and> sanitizeNodes [Element ''constructor'' [] [Text ''x'']] = Inr [Element ''constructor'' [] [Text ''x'']]
   \<and> sanitizeHTML constructor_html = Some (Inr ''<constructor>x</constructor>'')"
  by code_simp

subsection \<open>Attributes of an allowed element\<close>







lemma link_parses:
  "parse_fragment link_html = Some [Element ''a'' [(''href'', ''javascript:alert(1)'')] [Text ''x'']]"
  by code_simp

lemma image_parses:
  "parse_fragment image_html =
     Some [Element ''img'' [(''src'', ''https://x/y.png''), (''onload'', ''evil()'')] []]"
  by code_simp






subsection \<open>Sanitizing twice\<close>

lemma pre_parses: "parse_fragment pre_html = Some [Element ''pre'' [] [Text (CHR 0x0A # ''x'')]]"
  by code_simp

text \<open>
  C3 as stated fails. The parser drops a line feed that comes first in a \<open>pre\<close>
  element and the serialiser does not put one back: sanitizing \<open>pre\<close> with two leading
  line feeds gives \<open>pre\<close> with one, and sanitizing that gives \<open>pre\<close> with none.
\<close>

theorem sanitize_twice_counterexample:
  "sanitizeHTML pre_html = Some (Inr pre_once)
   \<and> sanitizeHTML pre_once = Some (Inr pre_twice)
   \<and> pre_twice \<noteq> pre_once"
  by code_simp

lemma escape_text_append: "escape_text (s @ t) = escape_text s @ escape_text t"
  by (induction s) simp_all

lemma serialize_merge_text: "serialize_nodes parent (merge_text ns) = serialize_nodes parent ns"
proof (induction ns arbitrary: parent rule: merge_text.induct)
  case 1
  then show ?case by simp
next
  case (2 s ns)
  show ?case
  proof (cases "s = []")
    case True
    then show ?thesis using 2(1) [of parent] by simp
  next
    case False
    have ih: "serialize_nodes parent (merge_text ns) = serialize_nodes parent ns"
      using 2(2) [OF False] .
    show ?thesis
    proof (cases "merge_text ns")
      case Nil
      then show ?thesis using False ih by simp
    next
      case (Cons m rest)
      then show ?thesis using False ih by (cases m) (auto simp: escape_text_append)
    qed
  qed
next
  case (3 name attrs children ns)
  then show ?case by simp
next
  case (4 c ns)
  then show ?case by simp
qed

lemma sanitizeNodes_length: "sanitizeNodes ns = Inr out \<Longrightarrow> length out \<le> length ns"
proof (induction ns arbitrary: out)
  case Nil
  then show ?case by simp
next
  case (Cons n ns)
  then obtain sanitized others where
    r: "sanitizeNodes ns = Inr others" and
    out: "out = (case sanitized of None \<Rightarrow> others | Some m \<Rightarrow> m # others)"
    by (auto simp: bindE_def split: sum.splits)
  have "length others \<le> length ns" using Cons.IH [OF r] .
  then show ?case using out by (cases sanitized) simp_all
qed

lemma sanitizeNodes_fixed_Cons:
  "sanitizeNodes (n # ns) = Inr (n # ns) \<longleftrightarrow> sanitizeNode n = Inr (Some n) \<and> sanitizeNodes ns = Inr ns"
proof
  assume a: "sanitizeNodes (n # ns) = Inr (n # ns)"
  then obtain sanitized others where
    c: "sanitizeNode n = Inr sanitized" and r: "sanitizeNodes ns = Inr others" and
    out: "n # ns = (case sanitized of None \<Rightarrow> others | Some m \<Rightarrow> m # others)"
    by (auto simp: bindE_def split: sum.splits)
  have l: "length others \<le> length ns" using sanitizeNodes_length [OF r] .
  show "sanitizeNode n = Inr (Some n) \<and> sanitizeNodes ns = Inr ns"
  proof (cases sanitized)
    case None
    then have "length others = Suc (length ns)" using out by (metis length_Cons option.simps(4))
    then show ?thesis using l by simp
  next
    case (Some m)
    then show ?thesis using out c r by simp
  qed
next
  assume "sanitizeNode n = Inr (Some n) \<and> sanitizeNodes ns = Inr ns"
  then show "sanitizeNodes (n # ns) = Inr (n # ns)" by (simp add: bindE_def)
qed

lemma sanitizeNode_fixed_Element:
  "sanitizeNode (Element name attrs children) = Inr (Some (Element name attrs children)) \<Longrightarrow>
   sanitizeNodes children = Inr children
   \<and> (\<forall>cs. sanitizeNodes cs = Inr cs \<longrightarrow>
         sanitizeNode (Element name attrs cs) = Inr (Some (Element name attrs cs)))"
  by (cases "allowedTags_get (toLowerCase (tagName name))";
      cases "copyAttributes (allowedTags_get (toLowerCase (tagName name))) attrs []")
     (auto simp: Let_def bindE_def split: sum.splits)

lemma merge_text_fixed:
  "sanitizeNodes ns = Inr ns \<Longrightarrow> sanitizeNodes (merge_text ns) = Inr (merge_text ns)"
proof (induction ns rule: merge_text.induct)
  case 1
  then show ?case by simp
next
  case (2 s ns)
  from 2(3) have r: "sanitizeNodes ns = Inr ns" unfolding sanitizeNodes_fixed_Cons by blast
  show ?case
  proof (cases "s = []")
    case True
    then show ?thesis using 2(1) r by simp
  next
    case False
    have ih: "sanitizeNodes (merge_text ns) = Inr (merge_text ns)" using 2(2) [OF False r] .
    show ?thesis
    proof (cases "merge_text ns")
      case Nil
      then show ?thesis using False by (simp add: bindE_def)
    next
      case (Cons m rest)
      have "sanitizeNodes (m # rest) = Inr (m # rest)" using ih unfolding Cons .
      then have hm: "sanitizeNode m = Inr (Some m)" and hr: "sanitizeNodes rest = Inr rest"
        unfolding sanitizeNodes_fixed_Cons by blast+
      have keep: "sanitizeNodes (Text s # m # rest) = Inr (Text s # m # rest)"
        unfolding sanitizeNodes_fixed_Cons using hm hr by simp
      have join: "sanitizeNodes (Text (s @ t) # rest) = Inr (Text (s @ t) # rest)" for t
        unfolding sanitizeNodes_fixed_Cons using hr by simp
      show ?thesis
      proof (cases m)
        case (Text t)
        have "merge_text (Text s # ns) = Text (s @ t) # rest" using False Cons Text by simp
        then show ?thesis using join by simp
      next
        case (Element x1 x2 x3)
        have "merge_text (Text s # ns) = Text s # m # rest" using False Cons Element by simp
        then show ?thesis using keep by simp
      next
        case (Comment x)
        have "merge_text (Text s # ns) = Text s # m # rest" using False Cons Comment by simp
        then show ?thesis using keep by simp
      qed
    qed
  qed
next
  case (3 name attrs children ns)
  from 3(3) have e: "sanitizeNode (Element name attrs children) = Inr (Some (Element name attrs children))"
    and r: "sanitizeNodes ns = Inr ns"
    unfolding sanitizeNodes_fixed_Cons by blast+
  from sanitizeNode_fixed_Element [OF e] have c: "sanitizeNodes children = Inr children"
    and k: "\<And>cs. sanitizeNodes cs = Inr cs \<Longrightarrow>
         sanitizeNode (Element name attrs cs) = Inr (Some (Element name attrs cs))"
    by blast+
  have "sanitizeNode (Element name attrs (merge_text children)) = Inr (Some (Element name attrs (merge_text children)))"
    using k [OF 3(1) [OF c]] .
  moreover have "sanitizeNodes (merge_text ns) = Inr (merge_text ns)" using 3(2) [OF r] .
  ultimately have "sanitizeNodes (Element name attrs (merge_text children) # merge_text ns)
      = Inr (Element name attrs (merge_text children) # merge_text ns)"
    unfolding sanitizeNodes_fixed_Cons by blast
  then show ?case by simp
next
  case (4 c ns)
  from 4(2) have "sanitizeNode (Comment c) = Inr (Some (Comment c))"
    unfolding sanitizeNodes_fixed_Cons by blast
  then show ?case by simp
qed

text \<open>
  C3, as amended: on the tree. The nodes that sanitizing returns are left as they are
  by sanitizing them again, and so are those nodes with each run of neighbouring text
  nodes merged into one, the form in which their serialisation lists them: sanitizing
  either gives the string that sanitizing the input gave.
\<close>

theorem sanitize_twice_same:
  "sanitizeNodes childNodes = Inr sanitizedNodes \<Longrightarrow>
   sanitizeNodes sanitizedNodes = Inr sanitizedNodes
   \<and> sanitize_dom sanitizedNodes = sanitize_dom childNodes
   \<and> sanitize_dom childNodes = Inr (innerHTML sanitizedNodes)
   \<and> sanitizeNodes (merge_text sanitizedNodes) = Inr (merge_text sanitizedNodes)
   \<and> sanitize_dom (merge_text sanitizedNodes) = Inr (innerHTML sanitizedNodes)"
proof -
  assume a: "sanitizeNodes childNodes = Inr sanitizedNodes"
  then have f: "sanitizeNodes sanitizedNodes = Inr sanitizedNodes"
    using sanitize_again(2) [of childNodes] by blast
  then have m: "sanitizeNodes (merge_text sanitizedNodes) = Inr (merge_text sanitizedNodes)"
    by (rule merge_text_fixed)
  have "sanitize_dom (merge_text sanitizedNodes) = Inr (innerHTML sanitizedNodes)"
    by (simp add: sanitize_dom_def m bindE_def innerHTML_def serialize_merge_text)
  then show ?thesis using a f m by (simp add: sanitize_dom_def bindE_def)
qed

lemma adjacent_parses: "parse_fragment adjacent_html = Some adjacent_dom"
  by code_simp

lemma adjacent_nodes: "sanitizeNodes adjacent_dom = Inr adjacent_sanitized"
  by code_simp

lemma adjacent_serialized: "innerHTML adjacent_sanitized = ''ab<p>c</p>''"
  by code_simp

lemma adjacent_read_back: "parse_fragment ''ab<p>c</p>'' = Some (merge_text adjacent_sanitized)"
  by code_simp

lemma scenario_twice:
  "sanitizeHTML ''<p>Hi <b>there</b></p>bad()'' = Some (Inr ''<p>Hi <b>there</b></p>bad()'')"
  by code_simp

lemma adjacent_merged: "merge_text adjacent_sanitized = [Text ''ab'', Element ''p'' [] [Text ''c'']]"
  by code_simp

text \<open>
  The input \<open>a<script>b</script><p>c</p>\<close>: the sanitized nodes are the texts \<open>a\<close> and
  \<open>b\<close> and the paragraph, and the output is \<open>ab<p>c</p>\<close>. The parser reads it back with
  the one text node \<open>ab\<close>, and sanitizing returns the same string for either tree.
\<close>

theorem sanitize_twice_same_witness:
  "sanitizeNodes adjacent_dom = Inr adjacent_sanitized
   \<and> sanitizeNodes adjacent_sanitized = Inr adjacent_sanitized
   \<and> sanitize_dom adjacent_dom = Inr ''ab<p>c</p>''
   \<and> sanitize_dom adjacent_sanitized = Inr ''ab<p>c</p>''
   \<and> parse_fragment ''ab<p>c</p>'' = Some [Text ''ab'', Element ''p'' [] [Text ''c'']]
   \<and> sanitize_dom [Text ''ab'', Element ''p'' [] [Text ''c'']] = Inr ''ab<p>c</p>''
   \<and> sanitizeHTML adjacent_html = Some (Inr ''ab<p>c</p>'')
   \<and> sanitizeHTML ''ab<p>c</p>'' = Some (Inr ''ab<p>c</p>'')"
proof -
  note th = sanitize_twice_same [OF adjacent_nodes]
  have f: "sanitizeNodes adjacent_sanitized = Inr adjacent_sanitized" using th by blast
  have d0: "sanitize_dom adjacent_dom = Inr ''ab<p>c</p>''"
    using th by (simp add: adjacent_serialized)
  have d1: "sanitize_dom adjacent_sanitized = Inr ''ab<p>c</p>''"
    using th by (simp add: adjacent_serialized)
  have d2: "sanitize_dom [Text ''ab'', Element ''p'' [] [Text ''c'']] = Inr ''ab<p>c</p>''"
    using th by (simp add: adjacent_serialized adjacent_merged)
  have rb: "parse_fragment ''ab<p>c</p>'' = Some [Text ''ab'', Element ''p'' [] [Text ''c'']]"
    using adjacent_read_back by (simp add: adjacent_merged)
  have once: "sanitizeHTML adjacent_html = Some (Inr ''ab<p>c</p>'')"
    by (simp add: sanitizeHTML_def adjacent_parses d0)
  have twice: "sanitizeHTML ''ab<p>c</p>'' = Some (Inr ''ab<p>c</p>'')"
    by (simp add: sanitizeHTML_def rb d2)
  show ?thesis using adjacent_nodes f d0 d1 rb d2 once twice by blast
qed


end
